theory Spec2Isabelle
  imports Complex_Main
begin

section \<open>The quiz command handlers of cmds.js\<close>

text \<open>
  The development embeds the command handlers of \<^verbatim>\<open>src/cmds.js\<close>: \<^verbatim>\<open>validateId\<close>,
  \<^verbatim>\<open>makeQuestion\<close> and the handlers \<^verbatim>\<open>listCmd\<close>, \<^verbatim>\<open>showCmd\<close>, \<^verbatim>\<open>addCmd\<close>, \<^verbatim>\<open>deleteCmd\<close>,
  \<^verbatim>\<open>editCmd\<close>, \<^verbatim>\<open>testCmd\<close>, \<^verbatim>\<open>playCmd\<close>, \<^verbatim>\<open>creditsCmd\<close> and \<^verbatim>\<open>quitCmd\<close>. (\<^verbatim>\<open>helpCmd\<close> writes
  eleven fixed lines and the prompt; two of its lines hold combining accents, code units
  above 255, outside the strings of this model, and it is left out.)

  A handler is a function on a \<open>world\<close>: the table of the Store, the lines the user
  is going to type, and the calls the handler has made so far on the socket and on the
  readline interface, in the order in which JavaScript makes them. A promise is the
  pair of its state (fulfilled, rejected, or never settled) and the world at that
  moment; \<^verbatim>\<open>.then\<close> and \<^verbatim>\<open>.catch\<close> are functions on such pairs.
\<close>

subsection \<open>JavaScript strings and numbers\<close>

text \<open>
  A JavaScript string is a sequence of UTF-16 code units. The model covers the strings
  whose code units are below 256: a \<open>char\<close> is such a code unit (Latin-1), so
  \<open>CHR 0xE1\<close> is the letter a with an acute accent of the Spanish messages.

  \<^verbatim>\<open>String.prototype.trim\<close> removes white space and line terminators at both ends; below
  256 these are TAB, LF, VT, FF, CR, SP and NBSP.
\<close>

definition isWhiteSpace :: "char \<Rightarrow> bool" where
  "isWhiteSpace c =
     (c \<in> set [CHR 0x09, CHR 0x0A, CHR 0x0B, CHR 0x0C, CHR 0x0D, CHR 0x20, CHR 0xA0])"

definition trim :: "string \<Rightarrow> string" where
  "trim s = rev (dropWhile isWhiteSpace (rev (dropWhile isWhiteSpace s)))"

text \<open>
  \<^verbatim>\<open>String.prototype.toLowerCase\<close>: below 256 the upper-case letters are A to Z (65 to 90)
  and the accented capitals 192 to 222 without the multiplication sign 215; each has its
  lower-case letter 32 places further.
\<close>

definition lowerChar :: "char \<Rightarrow> char" where
  "lowerChar c =
     (let n = (of_char c :: nat)
      in if (65 \<le> n \<and> n \<le> 90) \<or> (192 \<le> n \<and> n \<le> 222 \<and> n \<noteq> 215)
         then char_of (n + 32) else c)"

definition toLowerCase :: "string \<Rightarrow> string" where
  "toLowerCase s = map lowerChar s"

text \<open>
  \<^verbatim>\<open>parseInt(string)\<close> with no radix, as ECMAScript defines it: skip leading white space,
  read an optional sign, take radix 16 after a prefix \<^verbatim>\<open>0x\<close> or \<^verbatim>\<open>0X\<close> and radix 10
  otherwise, and read the longest prefix of digits of that radix. With no digit the
  result is NaN, here \<open>None\<close>. \<open>parseInt\<close> below gives the integer that is read, with its
  sign (the mathematical integer of ECMAScript's definition); the value that JavaScript
  returns is the Number for that integer, \<open>parseInt_Number\<close> further down. The two are the
  same integer up to 2 to the power 53 in magnitude.
\<close>

definition digitValue :: "char \<Rightarrow> nat option" where
  "digitValue c =
     (let n = (of_char c :: nat)
      in if 48 \<le> n \<and> n \<le> 57 then Some (n - 48)
         else if 97 \<le> n \<and> n \<le> 122 then Some (n - 87)
         else if 65 \<le> n \<and> n \<le> 90 then Some (n - 55)
         else None)"

definition isDigit :: "nat \<Rightarrow> char \<Rightarrow> bool" where
  "isDigit R c = (case digitValue c of None \<Rightarrow> False | Some d \<Rightarrow> d < R)"

definition mathInt :: "nat \<Rightarrow> string \<Rightarrow> nat" where
  "mathInt R Z = foldl (\<lambda>acc c. acc * R + (case digitValue c of None \<Rightarrow> 0 | Some d \<Rightarrow> d)) 0 Z"

definition parseInt :: "string \<Rightarrow> int option" where
  "parseInt inputString =
     (let S = dropWhile isWhiteSpace inputString;
          sign = (if take 1 S = ''-'' then - 1 else 1 :: int);
          S1 = (if take 1 S = ''+'' \<or> take 1 S = ''-'' then drop 1 S else S);
          R = (if take 2 S1 = ''0x'' \<or> take 2 S1 = ''0X'' then 16 else 10 :: nat);
          S2 = (if R = 16 then drop 2 S1 else S1);
          Z = takeWhile (isDigit R) S2
      in if Z = [] then None else Some (sign * int (mathInt R Z)))"

text \<open>
  The decimal text of an integer, as a template literal \<^verbatim>\<open>`${n}`\<close> renders a Number
  that is an integer.
\<close>

fun digits :: "nat \<Rightarrow> string" where
  "digits n =
     (if n < 10 then [char_of (48 + n)] else digits (n div 10) @ [char_of (48 + n mod 10)])"

declare digits.simps [simp del]

definition num :: "int \<Rightarrow> string" where
  "num i = (if i < 0 then ''-'' @ digits (nat (- i)) else digits (nat i))"

text \<open>
  A Number that \<^verbatim>\<open>parseInt\<close> can return and that is not NaN: an integer that a double
  holds, or one of the two infinities. (The sign of zero is not modelled.)
\<close>

datatype number = Finite int | PlusInfinity | MinusInfinity

text \<open>
  The number of binary digits of a positive integer.
\<close>

function bitlength :: "int \<Rightarrow> nat" where
  "bitlength m = (if m \<le> 0 then 0 else Suc (bitlength (m div 2)))"
  by pat_completeness auto
termination
  by (relation "measure nat") auto

declare bitlength.simps [simp del]

text \<open>
  A double has 53 significant binary digits. \<open>round53 m\<close> is the integer with at most 53
  significant binary digits nearest to \<open>m\<close>, the one with the even last digit when two are
  equally near.
\<close>

definition round53 :: "int \<Rightarrow> int" where
  "round53 m =
     (let b = bitlength m
      in if b \<le> 53 then m
         else
           (let sh = b - 53;
                q = m div 2 ^ sh;
                r = m mod 2 ^ sh;
                half = 2 ^ (sh - 1);
                q' = (if half < r \<or> (r = half \<and> odd q) then q + 1 else q)
            in q' * 2 ^ sh))"

text \<open>
  The Number for an integer: the nearest double, and an infinity when that rounding
  reaches 2 to the power 1024. (ECMAScript lets an engine approximate a decimal text
  beyond its 20th significant digit; V8 rounds the whole text correctly, as here.)
\<close>

definition toNumber :: "int \<Rightarrow> number" where
  "toNumber x =
     (let m = round53 \<bar>x\<bar>
      in if 2 ^ 1024 \<le> m then (if x < 0 then MinusInfinity else PlusInfinity)
         else Finite (if x < 0 then - m else m))"

text \<open>
  The value of \<^verbatim>\<open>parseInt(string)\<close>: NaN (\<open>None\<close>), or the Number for the integer read.
\<close>

definition parseInt_Number :: "string \<Rightarrow> number option" where
  "parseInt_Number s = map_option toNumber (parseInt s)"

text \<open>
  Reading a JavaScript array at an index gives \<^verbatim>\<open>undefined\<close> out of range, here
  \<open>None\<close>; \<^verbatim>\<open>splice(i, 1)\<close> removes the element at \<open>i\<close>, counting a negative \<open>i\<close>
  from the end and removing nothing at or beyond the length.
\<close>

definition nth_js :: "'a list \<Rightarrow> int \<Rightarrow> 'a option" where
  "nth_js xs i = (if 0 \<le> i \<and> i < int (length xs) then Some (xs ! nat i) else None)"

definition splice1 :: "'a list \<Rightarrow> int \<Rightarrow> 'a list" where
  "splice1 xs i =
     (let len = int (length xs);
          start = nat (if i < 0 then max (len + i) 0 else min i len)
      in take start xs @ drop (start + 1) xs)"

subsection \<open>Quizzes, errors, the channel and the world\<close>

record quiz =
  quiz_id :: int
  question :: string
  answer :: string

text \<open>
  What a promise is rejected with: an \<^verbatim>\<open>Error\<close> with its message (a \<^verbatim>\<open>TypeError\<close> is one
  too), or a \<^verbatim>\<open>Sequelize.ValidationError\<close> with the messages of its \<^verbatim>\<open>errors\<close>.
\<close>

datatype err = Error string | ValidationError "string list"

text \<open>
  \<^verbatim>\<open>error.message\<close>. Sequelize composes the message of a validation error from its field
  messages, each after its kind and the items joined by a comma and a line feed; no
  handler of cmds.js ever prints it, since each chain that can meet a validation error
  catches it by its class first.
\<close>

fun join_items :: "string list \<Rightarrow> string" where
  "join_items [] = []"
| "join_items [m] = m"
| "join_items (m # m' # ms) = m @ '','' @ [CHR 0x0A] @ join_items (m' # ms)"

fun message :: "err \<Rightarrow> string" where
  "message (Error m) = m"
| "message (ValidationError ms) = join_items (map (\<lambda>m. ''Validation error: '' @ m) ms)"

text \<open>
  The module \<^verbatim>\<open>out.js\<close> is not among the sources. Its functions are kept symbolic: a
  text is a list of pieces, \<open>T s\<close> a plain string and \<open>C s colour\<close> the value of
  \<^verbatim>\<open>colorize(s, colour)\<close>; a template literal is the list of its parts.
\<close>

datatype piece = T string | C string string

type_synonym rtext = "piece list"

text \<open>
  The calls a handler makes, in order: \<^verbatim>\<open>log(socket, msg)\<close>, \<^verbatim>\<open>log(socket, msg, colour)\<close>,
  \<^verbatim>\<open>biglog(socket, msg, colour)\<close>, \<^verbatim>\<open>errorlog(socket, emsg)\<close>, \<^verbatim>\<open>rl.question(text, ...)\<close>,
  \<^verbatim>\<open>rl.prompt()\<close> (the signal that the next command may come),
  \<^verbatim>\<open>setTimeout(() => {rl.write(s)}, 0)\<close>, \<^verbatim>\<open>rl.close()\<close> and \<^verbatim>\<open>socket.end()\<close>.
\<close>

datatype event =
    Log rtext
  | LogColour rtext string
  | BigLog string string
  | ErrorLog string
  | Question piece
  | Prompt
  | RlWrite string
  | RlClose
  | SocketEnd

record world =
  db :: "quiz list"
  input :: "string list"
  out :: "event list"

text \<open>
  What the handlers take from their environment: the rule by which the Store validates
  a record (the field messages with which it rejects question and answer, none when it
  accepts them); what \<^verbatim>\<open>errorlog\<close> does when it is called with a message where the
  socket belongs and nothing else (\<open>Some m\<close>: it throws an error of message \<open>m\<close>;
  \<open>None\<close>: it returns); \<^verbatim>\<open>process.stdout.isTTY\<close>; and the successive values of
  \<^verbatim>\<open>Math.random()\<close>.
\<close>

record env =
  validate :: "string \<Rightarrow> string \<Rightarrow> string list"
  errorlog_nosocket :: "string \<Rightarrow> string option"
  isTTY :: bool
  random :: "nat \<Rightarrow> rat"

definition emit :: "event \<Rightarrow> world \<Rightarrow> world" where
  "emit e w = w\<lparr>out := out w @ [e]\<rparr>"

definition log' :: "rtext \<Rightarrow> world \<Rightarrow> world" where
  "log' msg w = emit (Log msg) w"

definition biglog :: "string \<Rightarrow> string \<Rightarrow> world \<Rightarrow> world" where
  "biglog msg colour w = emit (BigLog msg colour) w"

definition errorlog :: "string \<Rightarrow> world \<Rightarrow> world" where
  "errorlog emsg w = emit (ErrorLog emsg) w"

definition prompt :: "world \<Rightarrow> world" where
  "prompt w = emit Prompt w"

subsection \<open>Promises\<close>

datatype 'a res = Resolved 'a | Rejected err | Pending

definition then_p :: "'a res \<times> world \<Rightarrow> ('a \<Rightarrow> world \<Rightarrow> 'b res \<times> world) \<Rightarrow> 'b res \<times> world" where
  "then_p p f =
     (case p of
        (Resolved v, w) \<Rightarrow> f v w
      | (Rejected e, w) \<Rightarrow> (Rejected e, w)
      | (Pending, w) \<Rightarrow> (Pending, w))"

text \<open>
  \<^verbatim>\<open>.catch(Sequelize.ValidationError, handler)\<close> and \<^verbatim>\<open>.catch(handler)\<close>. Every handler of
  cmds.js returns \<^verbatim>\<open>undefined\<close>, and no later step reads the value a chain carries past
  a catch, so past a catch the value is \<open>()\<close>.
\<close>

definition catch_validation ::
  "'a res \<times> world \<Rightarrow> (string list \<Rightarrow> world \<Rightarrow> unit res \<times> world) \<Rightarrow> unit res \<times> world" where
  "catch_validation p h =
     (case p of
        (Resolved v, w) \<Rightarrow> (Resolved (), w)
      | (Rejected (ValidationError ms), w) \<Rightarrow> h ms w
      | (Rejected (Error m), w) \<Rightarrow> (Rejected (Error m), w)
      | (Pending, w) \<Rightarrow> (Pending, w))"

definition catch_p :: "'a res \<times> world \<Rightarrow> (err \<Rightarrow> world \<Rightarrow> unit res \<times> world) \<Rightarrow> unit res \<times> world" where
  "catch_p p h =
     (case p of
        (Resolved v, w) \<Rightarrow> (Resolved (), w)
      | (Rejected e, w) \<Rightarrow> h e w
      | (Pending, w) \<Rightarrow> (Pending, w))"

subsection \<open>The Store\<close>

text \<open>
  The module \<^verbatim>\<open>model.js\<close> (the Sequelize model \<^verbatim>\<open>models.quiz\<close>) is not among the sources.
  The Store is modelled from its interface in the spec, over the table \<open>db\<close> of the
  world, a list in the order of \<^verbatim>\<open>findAll\<close>.
\<close>

text \<open>
  Modelled from the spec: \<^verbatim>\<open>findAll() -> sequence of Quiz\<close> of the missing \<^verbatim>\<open>model.js\<close>.
\<close>

definition findAll :: "world \<Rightarrow> quiz list res \<times> world" where
  "findAll w = (Resolved (db w), w)"

text \<open>
  Modelled from the spec: \<^verbatim>\<open>findById(id) -> Quiz | absent\<close> of the missing \<^verbatim>\<open>model.js\<close>.
\<close>

definition findById :: "int \<Rightarrow> world \<Rightarrow> quiz option res \<times> world" where
  "findById i w = (Resolved (find (\<lambda>q. quiz_id q = i) (db w)), w)"

text \<open>
  Modelled from the spec: the id of a new record of the missing \<^verbatim>\<open>model.js\<close>, ``integer,
  unique, store-assigned''; here one more than the largest id of the table.
\<close>

definition fresh_id :: "quiz list \<Rightarrow> int" where
  "fresh_id qs = foldl max 0 (map quiz_id qs) + 1"

text \<open>
  Modelled from the spec: \<^verbatim>\<open>create(question, answer) -> Quiz | ValidationError\<close> of the
  missing \<^verbatim>\<open>model.js\<close>. The Store rejects the record with the field messages of its
  validation rule, and otherwise appends it under a new id.
\<close>

definition create :: "env \<Rightarrow> string \<times> string \<Rightarrow> world \<Rightarrow> quiz res \<times> world" where
  "create e qa w =
     (case validate e (fst qa) (snd qa) of
        [] \<Rightarrow>
          (let new = \<lparr>quiz_id = fresh_id (db w), question = fst qa, answer = snd qa\<rparr>
           in (Resolved new, w\<lparr>db := db w @ [new]\<rparr>))
      | m # ms \<Rightarrow> (Rejected (ValidationError (m # ms)), w))"

text \<open>
  Modelled from the spec: \<^verbatim>\<open>update(quiz) -> Quiz | ValidationError\<close> of the missing
  \<^verbatim>\<open>model.js\<close> (\<^verbatim>\<open>quiz.save()\<close> in cmds.js). The record of the same id is replaced.
\<close>

definition save :: "env \<Rightarrow> quiz \<Rightarrow> world \<Rightarrow> quiz res \<times> world" where
  "save e q w =
     (case validate e (question q) (answer q) of
        [] \<Rightarrow> (Resolved q, w\<lparr>db := map (\<lambda>r. if quiz_id r = quiz_id q then q else r) (db w)\<rparr>)
      | m # ms \<Rightarrow> (Rejected (ValidationError (m # ms)), w))"


subsection \<open>validateId and makeQuestion\<close>

text \<open>
  The three errors the handlers make themselves, named after the kinds of the spec:
  \<^verbatim>\<open>new Error(`Falta el parametro <id>.`)\<close>, \<^verbatim>\<open>new Error(`El valor del parametro <id> no es
  valido.`)\<close> (both with their accents) and \<^verbatim>\<open>new Error(`No existe un quiz asociado al
  id=${id}.`)\<close>. In the last one \<^verbatim>\<open>id\<close> is the handler's parameter, the argument as it was
  typed, not the number \<^verbatim>\<open>validateId\<close> made of it; \<open>template\<close> is its text in a template
  literal.
\<close>

definition MissingParameter :: err where
  "MissingParameter = Error (''Falta el par'' @ [CHR 0xE1] @ ''metro <id>.'')"

definition InvalidParameter :: err where
  "InvalidParameter =
     Error (''El valor del par'' @ [CHR 0xE1] @ ''metro <id> no es v'' @ [CHR 0xE1] @ ''lido.'')"

definition template :: "string option \<Rightarrow> string" where
  "template a = (case a of None \<Rightarrow> ''undefined'' | Some s \<Rightarrow> s)"

definition NotFound :: "string option \<Rightarrow> err" where
  "NotFound id_arg = Error (''No existe un quiz asociado al id='' @ template id_arg @ ''.'')"

definition validateId :: "string option \<Rightarrow> world \<Rightarrow> int res \<times> world" where
  "validateId id_arg w =
     (case id_arg of
        None \<Rightarrow> (Rejected MissingParameter, w)
      | Some s \<Rightarrow>
          (case parseInt s of
             None \<Rightarrow> (Rejected InvalidParameter, w)
           | Some n \<Rightarrow> (Resolved n, w)))"

text \<open>
  \<open>validateId\<close> above carries the id as the integer that was read: the handlers hand it
  to the Store, whose ids are integers, and up to 2 to the power 53 in magnitude the
  Number that \<^verbatim>\<open>parseInt\<close> returns is that integer. \<open>validateId_Number\<close> is \<^verbatim>\<open>validateId\<close>
  with the Number itself, as line 56 computes it and line 60 resolves it.
\<close>

definition validateId_Number :: "string option \<Rightarrow> world \<Rightarrow> number res \<times> world" where
  "validateId_Number id_arg w =
     (case id_arg of
        None \<Rightarrow> (Rejected MissingParameter, w)
      | Some s \<Rightarrow>
          (case parseInt_Number s of
             None \<Rightarrow> (Rejected InvalidParameter, w)
           | Some x \<Rightarrow> (Resolved x, w)))"

text \<open>
  \<^verbatim>\<open>makeQuestion(rl, text)\<close> calls \<^verbatim>\<open>rl.question(colorize(text, 'red'), ...)\<close> at once
  (\<open>ask\<close>); its promise is fulfilled with the trimmed line when the user has typed one
  (\<open>receive\<close>), and never settles when no line comes.
\<close>

definition ask :: "string \<Rightarrow> world \<Rightarrow> world" where
  "ask txt w = emit (Question (C txt ''red'')) w"

definition receive :: "world \<Rightarrow> string res \<times> world" where
  "receive w =
     (case input w of
        [] \<Rightarrow> (Pending, w)
      | l # ls \<Rightarrow> (Resolved (trim l), w\<lparr>input := ls\<rparr>))"

definition makeQuestion :: "string \<Rightarrow> world \<Rightarrow> string res \<times> world" where
  "makeQuestion txt w = receive (ask txt w)"

subsection \<open>The handlers\<close>

definition listCmd :: "world \<Rightarrow> world" where
  "listCmd w =
     (let p1 = findAll w;
          p2 = then_p p1 (\<lambda>quizzes w.
                 (Resolved quizzes,
                  foldl (\<lambda>w q. log' [T '' ['', C (num (quiz_id q)) ''magenta'', T '']: '',
                                      T (question q)] w) w quizzes));
          p3 = catch_p p2 (\<lambda>error w. (Resolved (), errorlog (message error) w));
          p4 = then_p p3 (\<lambda>u w. (Resolved (), prompt w))
      in snd p4)"


text \<open>
  The validation handler of \<^verbatim>\<open>addCmd\<close>, \<^verbatim>\<open>editCmd\<close> and \<^verbatim>\<open>playCmd\<close> ends with
  \<^verbatim>\<open>error.errors.forEach(({message}) => errorlog(message))\<close>: the message stands where the
  socket belongs. Nothing reaches the socket in that call; when the call throws,
  \<^verbatim>\<open>forEach\<close> stops and the handler's promise is rejected with what was thrown. The
  handler of \<^verbatim>\<open>testCmd\<close> passes the socket: \<^verbatim>\<open>errorlog(socket, message)\<close>.
\<close>

fun forEach_errorlog_nosocket :: "env \<Rightarrow> string list \<Rightarrow> world \<Rightarrow> unit res \<times> world" where
  "forEach_errorlog_nosocket e [] w = (Resolved (), w)"
| "forEach_errorlog_nosocket e (m # ms) w =
     (case errorlog_nosocket e m of
        Some thrown \<Rightarrow> (Rejected (Error thrown), w)
      | None \<Rightarrow> forEach_errorlog_nosocket e ms w)"


definition addCmd :: "env \<Rightarrow> world \<Rightarrow> world" where
  "addCmd e w =
     (let p1 = makeQuestion '' Introduzca una pregunta: '' w;
          p2 = then_p p1 (\<lambda>q w.
                 then_p (makeQuestion '' Introduzca la respuesta '' w) (\<lambda>a w.
                   (Resolved (q, a), w)));
          p3 = then_p p2 (\<lambda>qa w. create e qa w);
          p4 = then_p p3 (\<lambda>q w.
                 (Resolved (),
                  log' [T '' ['', C (''Se ha a'' @ [CHR 0xF1] @ ''adido'') ''magenta'', T '']:  '',
                        T (question q), T '' '', C ''=>'' ''magenta'', T '' '', T (answer q)] w));
          p5 = catch_validation p4 (\<lambda>errors w.
                 forEach_errorlog_nosocket e errors (errorlog ''El quiz es erroneo:'' w));
          p6 = catch_p p5 (\<lambda>error w. (Resolved (), errorlog (message error) w));
          p7 = then_p p6 (\<lambda>u w. (Resolved (), prompt w))
      in snd p7)"


text \<open>
  \<^verbatim>\<open>editCmd\<close>. Before each question, on a terminal, the handler schedules
  \<^verbatim>\<open>rl.write\<close> of the stored text; the lines of \<open>input\<close> are the lines as the callbacks
  of \<^verbatim>\<open>rl.question\<close> receive them. The two assignments are those of lines 189 and 190:
  \<^verbatim>\<open>quiz.question = q; quiz.question = a;\<close>.
\<close>

definition editCmd :: "env \<Rightarrow> string option \<Rightarrow> world \<Rightarrow> world" where
  "editCmd e id_arg w =
     (let p1 = validateId id_arg w;
          p2 = then_p p1 (\<lambda>n w. findById n w);
          p3 = then_p p2 (\<lambda>found w.
                 case found of
                   None \<Rightarrow> (Rejected (NotFound id_arg), w)
                 | Some q0 \<Rightarrow>
                     (let w1 = (if isTTY e then emit (RlWrite (question q0)) w else w)
                      in then_p (makeQuestion '' Introduzca la pregunta '' w1) (\<lambda>q w.
                           (let w2 = (if isTTY e then emit (RlWrite (answer q0)) w else w)
                            in then_p (makeQuestion '' Introduzca la respuesta '' w2) (\<lambda>a w.
                                 (let q1 = q0\<lparr>question := q\<rparr>;
                                      q2 = q1\<lparr>question := a\<rparr>
                                  in (Resolved q2, w)))))));
          p4 = then_p p3 (\<lambda>q w. save e q w);
          p5 = then_p p4 (\<lambda>q w.
                 (Resolved (),
                  log' [T '' Se ha cambiado el quiz '', C (num (quiz_id q)) ''magenta'',
                        T '' por:  '', T (question q), T '' '', C ''=>'' ''magenta'', T '' '',
                        T (answer q)] w));
          p6 = catch_validation p5 (\<lambda>errors w.
                 forEach_errorlog_nosocket e errors (errorlog ''El quiz es erroneo:'' w));
          p7 = catch_p p6 (\<lambda>error w. (Resolved (), errorlog (message error) w));
          p8 = then_p p7 (\<lambda>u w. (Resolved (), prompt w))
      in snd p8)"


definition creditsCmd :: "world \<Rightarrow> world" where
  "creditsCmd w =
     (let w1 = log' [T (''Autores de la pr'' @ [CHR 0xE1] @ ''ctica:'')] w;
          w2 = emit (LogColour [T ''Andres Delgado Gomez''] ''green'') w1
      in prompt w2)"

definition quitCmd :: "world \<Rightarrow> world" where
  "quitCmd w = emit SocketEnd (emit RlClose w)"

subsection \<open>playCmd\<close>

text \<open>
  The variables \<^verbatim>\<open>score\<close> and \<^verbatim>\<open>toBeResolved\<close> of \<^verbatim>\<open>playCmd\<close>, which \<^verbatim>\<open>playOne\<close> updates.
  (\<^verbatim>\<open>preg_resp\<close> is filled once, before \<^verbatim>\<open>playOne\<close> is first called.)
\<close>

record pstate =
  score :: nat
  toBeResolved :: "nat list"

text \<open>
  The message of the \<^verbatim>\<open>TypeError\<close> that reading \<^verbatim>\<open>quiz.question\<close> throws when \<^verbatim>\<open>quiz\<close> is
  \<^verbatim>\<open>undefined\<close>, in the wording of V8.
\<close>

definition undefined_question :: string where
  "undefined_question =
     ''Cannot read property '' @ [CHR 0x27] @ ''question'' @ [CHR 0x27] @ '' of undefined''"

text \<open>
  \<^verbatim>\<open>playOne\<close> (lines 279 to 311). \<open>k\<close> counts the calls of \<^verbatim>\<open>Math.random()\<close>; the product
  with the length is taken exactly (the rounding of the double product cannot leave
  the range from 0 to the length). When the picked quiz is \<^verbatim>\<open>undefined\<close>, building the
  question throws and the \<^verbatim>\<open>catch\<close> of line 306 runs.

  \<^verbatim>\<open>playOne()\<close> returns the promise of its question as soon as the question is asked;
  neither caller returns that promise to its own chain. \<open>after\<close> is what the caller
  does next, before any answer can arrive: after the call of line 313 the callback
  ends and the last \<^verbatim>\<open>.then\<close> of the chain of \<^verbatim>\<open>playCmd\<close> calls \<^verbatim>\<open>rl.prompt()\<close>; after the
  call of line 297 nothing is left to do.
\<close>

function playOne ::
  "env \<Rightarrow> quiz list \<Rightarrow> (world \<Rightarrow> world) \<Rightarrow> nat \<Rightarrow> pstate \<Rightarrow> world \<Rightarrow> pstate \<times> world" where
  "playOne e preg_resp after k st w =
     (if length (toBeResolved st) = 0 then
        (let w1 = log' [T ('' No hay nada m'' @ [CHR 0xE1] @ ''s que preguntar'')] w;
             w2 = log' [T '' Fin del juego. Aciertos: '', T (num (int (score st)))] w1;
             w3 = biglog (num (int (score st))) ''magenta'' w2
         in (st, after (prompt w3)))
      else
        (let i = \<lfloor>random e k * of_nat (length (toBeResolved st))\<rfloor>;
             picked = (case nth_js (toBeResolved st) i of
                         None \<Rightarrow> None
                       | Some j \<Rightarrow> nth_js preg_resp (int j));
             st1 = st\<lparr>toBeResolved := splice1 (toBeResolved st) i\<rparr>
         in case picked of
              None \<Rightarrow> (st1, after (prompt (errorlog undefined_question w)))
            | Some q \<Rightarrow>
                (case receive (after (ask (question q @ ''? '') w)) of
                   (Resolved respuesta, w1) \<Rightarrow>
                     if toLowerCase (trim respuesta) = toLowerCase (answer q) then
                       (let st2 = st1\<lparr>score := score st1 + 1\<rparr>;
                            w2 = log' [T '' CORRECTO - Lleva '', T (num (int (score st2))),
                                       T '' aciertos.''] w1
                        in playOne e preg_resp (\<lambda>w. w) (Suc k) st2 w2)
                     else
                       (let w2 = log' [T '' INCORRECTO''] w1;
                            w3 = log' [T '' Fin del juego. Aciertos: '',
                                       T (num (int (score st1)))] w2;
                            w4 = biglog (num (int (score st1))) ''magenta'' w3
                        in (st1, prompt w4))
                 | (Rejected x, w1) \<Rightarrow> (st1, w1)
                 | (Pending, w1) \<Rightarrow> (st1, w1))))"
  by pat_completeness auto
termination
proof (relation "measure (\<lambda>(e, preg_resp, after, k, st, w). length (toBeResolved st))")
  show "wf (measure (\<lambda>(e, preg_resp, after, k, st, w). length (toBeResolved st)))"
    by simp
next
  fix e :: env and preg_resp :: "quiz list" and after :: "world \<Rightarrow> world" and k :: nat
    and st :: pstate and w :: world and i picked st1 q pr respuesta w1 st2 w2
  assume i: "i = \<lfloor>random e k * of_nat (length (toBeResolved st))\<rfloor>"
    and picked: "picked = (case nth_js (toBeResolved st) i of None \<Rightarrow> None
                             | Some j \<Rightarrow> nth_js preg_resp (int j))"
    and st1: "st1 = st\<lparr>toBeResolved := splice1 (toBeResolved st) i\<rparr>"
    and q: "picked = Some q"
    and st2: "st2 = st1\<lparr>score := score st1 + 1\<rparr>"
  from picked q obtain j where "nth_js (toBeResolved st) i = Some j"
    by (auto split: option.splits)
  then have "0 \<le> i \<and> i < int (length (toBeResolved st))"
    by (simp add: nth_js_def split: if_splits)
  then have "Suc (length (splice1 (toBeResolved st) i)) = length (toBeResolved st)"
    by (auto simp: splice1_def Let_def min_def)
  then show "((e, preg_resp, \<lambda>w. w, Suc k, st2, w2), e, preg_resp, after, k, st, w)
      \<in> measure (\<lambda>(e, preg_resp, after, k, st, w). length (toBeResolved st))"
    using st1 st2 by simp
qed

declare playOne.simps [simp del]

text \<open>
  \<^verbatim>\<open>playCmd\<close> (lines 263 to 325). In the model of the Store \<^verbatim>\<open>findAll\<close> always succeeds, so
  the two \<^verbatim>\<open>catch\<close> handlers of the chain never run. The result is the pair of the
  variables of the round, as the round leaves them, and the world.
\<close>

definition playCmd :: "env \<Rightarrow> world \<Rightarrow> pstate \<times> world" where
  "playCmd e w =
     (let preg_resp = db w;
          toBeResolved0 = [0..<length preg_resp]
      in playOne e preg_resp prompt 0 \<lparr>score = 0, toBeResolved = toBeResolved0\<rparr> w)"

subsection \<open>Reading the calls of a round\<close>

text \<open>
  The calls of a round, by name: the question for a quiz, the line that nothing is left
  to ask, the three calls that end a round (the final score, its banner and the prompt),
  the running-score line and the line for a wrong answer.
\<close>

definition asks :: "quiz \<Rightarrow> event" where
  "asks q = Question (C (question q @ ''? '') ''red'')"

definition no_more :: event where
  "no_more = Log [T ('' No hay nada m'' @ [CHR 0xE1] @ ''s que preguntar'')]"

definition game_over :: "nat \<Rightarrow> event list" where
  "game_over s =
     [Log [T '' Fin del juego. Aciertos: '', T (num (int s))], BigLog (num (int s)) ''magenta'',
      Prompt]"

definition correcto :: "nat \<Rightarrow> event" where
  "correcto s = Log [T '' CORRECTO - Lleva '', T (num (int s)), T '' aciertos.'']"

definition incorrecto :: event where
  "incorrecto = Log [T '' INCORRECTO'']"

text \<open>
  Recognisers for the calls of a round: a question; a call that is only made where a
  round ends (the banner of the final score, and the error line of the catch of line
  306).
\<close>

fun is_question :: "event \<Rightarrow> bool" where
  "is_question (Question p) = True"
| "is_question x = False"

fun is_end :: "event \<Rightarrow> bool" where
  "is_end (BigLog s c) = True"
| "is_end (ErrorLog m) = True"
| "is_end x = False"

text \<open>
  The invariant of the pool: no position twice, and every position within the loaded
  list. \<open>is_errorlog\<close> recognises an error line; in a round only the catch of line 306
  writes one.
\<close>

definition pool_ok :: "quiz list \<Rightarrow> nat list \<Rightarrow> bool" where
  "pool_ok P pool = (distinct pool \<and> list_all (\<lambda>j. j < length P) pool)"

fun is_errorlog :: "event \<Rightarrow> bool" where
  "is_errorlog (ErrorLog m) = True"
| "is_errorlog x = False"

text \<open>
  \<open>is_correcto\<close> recognises a running-score line. \<open>answers_match\<close> is the comparison in
  the words of the spec: the trimmed, lower-cased response against the trimmed,
  lower-cased stored answer; \<open>matches_some\<close> says that a typed line matches the answer of
  some loaded quiz.
\<close>

fun is_correcto :: "event \<Rightarrow> bool" where
  "is_correcto (Log [T a, T n, T b]) = (a = '' CORRECTO - Lleva '' \<and> b = '' aciertos.'')"
| "is_correcto x = False"

definition answers_match :: "string \<Rightarrow> string \<Rightarrow> bool" where
  "answers_match l a = (toLowerCase (trim l) = toLowerCase (trim a))"

definition matches_some :: "quiz list \<Rightarrow> string \<Rightarrow> bool" where
  "matches_some P l = list_ex (\<lambda>q. answers_match l (answer q)) P"

subsection \<open>An example Store and environment\<close>

text \<open>
  A validation rule after the spec's example (a Store that rejects empty text), with one
  message for each empty field, and the scenario of the spec: the quizzes 1 (``2+2?'',
  ``4'') and 2 (``capital of France?'', ``Paris''). In the example environment
  \<^verbatim>\<open>errorlog\<close> without a socket throws (it calls \<^verbatim>\<open>write\<close> on a string), the process has
  no terminal and \<^verbatim>\<open>Math.random()\<close> is always 0.
\<close>

definition notEmpty :: "string \<Rightarrow> string \<Rightarrow> string list" where
  "notEmpty q a =
     (if q = [] then [''question: empty''] else []) @ (if a = [] then [''answer: empty''] else [])"

definition example_env :: env where
  "example_env =
     \<lparr>validate = notEmpty,
      errorlog_nosocket = (\<lambda>m. Some ''socket.write is not a function''),
      isTTY = False,
      random = (\<lambda>k. 0)\<rparr>"

definition example_world :: world where
  "example_world =
     \<lparr>db = [\<lparr>quiz_id = 1, question = ''2+2?'', answer = ''4''\<rparr>,
            \<lparr>quiz_id = 2, question = ''capital of France?'', answer = ''Paris''\<rparr>],
      input = [],
      out = []\<rparr>"

section \<open>Properties\<close>

subsection \<open>Arrays\<close>

lemma nth_js_Some: "nth_js xs i = Some x \<Longrightarrow> 0 \<le> i \<and> i < int (length xs) \<and> x = xs ! nat i"
  by (auto simp: nth_js_def split: if_splits)

lemma length_splice1:
  "0 \<le> i \<Longrightarrow> i < int (length xs) \<Longrightarrow> Suc (length (splice1 xs i)) = length xs"
  by (auto simp: splice1_def Let_def min_def)

subsection \<open>Promise chains\<close>

lemma then_p_simps [simp]:
  "then_p (Resolved v, w) f = f v w"
  "then_p (Rejected x, w) f = (Rejected x, w)"
  "then_p (Pending, w) f = (Pending, w)"
  by (simp_all add: then_p_def)

lemma catch_p_simps [simp]:
  "catch_p (Resolved v, w) h = (Resolved (), w)"
  "catch_p (Rejected x, w) h = h x w"
  "catch_p (Pending, w) h = (Pending, w)"
  by (simp_all add: catch_p_def)

lemma catch_validation_simps [simp]:
  "catch_validation (Resolved v, w) h = (Resolved (), w)"
  "catch_validation (Rejected (ValidationError ms), w) h = h ms w"
  "catch_validation (Rejected (Error m), w) h = (Rejected (Error m), w)"
  "catch_validation (Pending, w) h = (Pending, w)"
  by (simp_all add: catch_validation_def)

lemmas channel_defs = emit_def log'_def biglog_def errorlog_def prompt_def ask_def

subsection \<open>Edit\<close>

text \<open>
  Claim C1 says that after an edit the saved record's question is the first response
  and its answer the second. The code assigns both responses to the question (lines
  189 and 190): editing quiz 1 of the example with the responses ``3+3?'' and ``6''
  saves the question ``6'' and leaves the answer ``4''.
\<close>

theorem editCmd_overwrites_question:
  "db (editCmd example_env (Some ''1'') (example_world\<lparr>input := [''3+3?'', ''6'']\<rparr>)) =
     [\<lparr>quiz_id = 1, question = ''6'', answer = ''4''\<rparr>,
      \<lparr>quiz_id = 2, question = ''capital of France?'', answer = ''Paris''\<rparr>]"
  by code_simp

subsection \<open>The signal for the next command\<close>

text \<open>
  Claim C5 says that \<^verbatim>\<open>rl.prompt()\<close>, the signal that the next command may come, is
  given only when the whole chain of a handler, nested questions included, is over.
  \<^verbatim>\<open>playCmd\<close> gives it right after its first question, before the answer: over a Store
  with one quiz and the answer ``5'', the second call is \<open>Prompt\<close>, and the verdict, the
  score and a second \<open>Prompt\<close> follow it.
\<close>

theorem playCmd_prompts_before_answer:
  "out (snd (playCmd example_env
       \<lparr>db = [\<lparr>quiz_id = 1, question = ''2+2?'', answer = ''4''\<rparr>], input = [''5''], out = []\<rparr>)) =
     [Question (C ''2+2?? '' ''red''), Prompt, Log [T '' INCORRECTO''],
      Log [T '' Fin del juego. Aciertos: '', T ''0''], BigLog ''0'' ''magenta'', Prompt]"
  by code_simp

subsection \<open>Validation errors of add and edit\<close>

text \<open>
  Claim C8 says that a validation error of add or edit is written to the channel as a
  header line and one error line for each field message. With an empty question and an
  empty answer the example Store rejects the record with two field messages. Whatever
  \<^verbatim>\<open>errorlog\<close> does when it is called without the socket, the calls of \<^verbatim>\<open>addCmd\<close> are not
  the two questions, the header, the two field messages and the prompt.
\<close>

theorem addCmd_validation_error_lines:
  "\<forall>f. out (addCmd (example_env\<lparr>errorlog_nosocket := f\<rparr>)
            (example_world\<lparr>input := ['''', '' '']\<rparr>)) \<noteq>
     [Question (C '' Introduzca una pregunta: '' ''red''),
      Question (C '' Introduzca la respuesta '' ''red''),
      ErrorLog ''El quiz es erroneo:'', ErrorLog ''question: empty'',
      ErrorLog ''answer: empty'', Prompt]"
proof
  fix f
  show "out (addCmd (example_env\<lparr>errorlog_nosocket := f\<rparr>)
            (example_world\<lparr>input := ['''', '' '']\<rparr>)) \<noteq>
     [Question (C '' Introduzca una pregunta: '' ''red''),
      Question (C '' Introduzca la respuesta '' ''red''),
      ErrorLog ''El quiz es erroneo:'', ErrorLog ''question: empty'',
      ErrorLog ''answer: empty'', Prompt]"
    by (cases "f ''question: empty''"; cases "f ''answer: empty''")
      (simp_all add: addCmd_def example_env_def example_world_def makeQuestion_def receive_def
        channel_defs create_def notEmpty_def trim_def isWhiteSpace_def)
qed

subsection \<open>Trimming\<close>

lemma dropWhile_same: "xs = [] \<or> \<not> P (hd xs) \<Longrightarrow> dropWhile P xs = xs"
  by (cases xs) auto

lemma hd_dropWhile_not: "dropWhile P xs = [] \<or> \<not> P (hd (dropWhile P xs))"
  by (induction xs) auto

lemma trim_head: "trim s = [] \<or> \<not> isWhiteSpace (hd (trim s))"
proof -
  let ?t = "dropWhile isWhiteSpace s"
  have split: "?t = trim s @ rev (takeWhile isWhiteSpace (rev ?t))"
  proof -
    have "rev (rev ?t) = rev (takeWhile isWhiteSpace (rev ?t) @ dropWhile isWhiteSpace (rev ?t))"
      by (simp only: takeWhile_dropWhile_id)
    then show ?thesis
      by (simp only: rev_append rev_rev_ident trim_def)
  qed
  show ?thesis
  proof (cases "trim s = []")
    case True
    then show ?thesis by simp
  next
    case False
    then have "hd ?t = hd (trim s)"
      using split by (metis hd_append2)
    moreover have "?t \<noteq> []"
    proof
      assume "?t = []"
      then have "trim s @ rev (takeWhile isWhiteSpace (rev ?t)) = []"
        using split by simp
      then show False
        using False by simp
    qed
    ultimately show ?thesis
      using hd_dropWhile_not [of isWhiteSpace s] by auto
  qed
qed

lemma trim_trim: "trim (trim s) = trim s"
proof -
  have a: "dropWhile isWhiteSpace (trim s) = trim s"
    using trim_head [of s] by (intro dropWhile_same) 
  have b: "dropWhile isWhiteSpace (rev (trim s)) = rev (trim s)"
    by (simp add: trim_def dropWhile_idem)
  show ?thesis
    unfolding trim_def [of "trim s"] a b by simp
qed


lemma find_None_filter_empty: "find P xs = None \<Longrightarrow> filter P xs = []"
  by (induction xs) (auto split: if_splits)

subsection \<open>An id that no record has\<close>




subsection \<open>Test\<close>




subsection \<open>The id validator\<close>

text \<open>
  The decimal text of an integer is read back by \<^verbatim>\<open>parseInt\<close> as that integer: every
  character of \<open>digits n\<close> is a decimal digit, and the digits have the value \<open>n\<close>.
\<close>

lemma digitValue_digit: "(d::nat) < 10 \<Longrightarrow> digitValue (char_of (48 + d)) = Some d"
  by (simp add: digitValue_def Let_def)

lemma isDigit_digit: "(d::nat) < 10 \<Longrightarrow> isDigit 10 (char_of (48 + d))"
  by (simp add: isDigit_def digitValue_digit)

lemma isDigit_10_plain:
  assumes "isDigit 10 c"
  shows "\<not> isWhiteSpace c \<and> c \<noteq> CHR ''-'' \<and> c \<noteq> CHR ''+'' \<and> c \<noteq> CHR ''x'' \<and> c \<noteq> CHR ''X''"
proof -
  have "48 \<le> (of_char c :: nat) \<and> (of_char c :: nat) \<le> 57"
    using assms by (auto simp: isDigit_def digitValue_def Let_def split: if_splits)
  then show ?thesis
    by (auto simp: isWhiteSpace_def)
qed

lemma digits_all: "c \<in> set (digits n) \<Longrightarrow> isDigit 10 c"
proof (induction n arbitrary: c rule: digits.induct)
  case (1 n)
  show ?case
  proof (cases "n < 10")
    case True
    with "1.prems" show ?thesis
      by (subst (asm) digits.simps) (simp add: isDigit_digit)
  next
    case False
    with "1.prems" have "c \<in> set (digits (n div 10)) \<or> c = char_of (48 + n mod 10)"
      by (subst (asm) digits.simps) auto
    then show ?thesis
      using "1.IH" [OF False] isDigit_digit [of "n mod 10"] by auto
  qed
qed

lemma digits_nonempty: "digits n \<noteq> []"
  by (subst digits.simps) simp

lemma mathInt_snoc:
  "mathInt R (Z @ [c]) = mathInt R Z * R + (case digitValue c of None \<Rightarrow> 0 | Some d \<Rightarrow> d)"
  by (simp add: mathInt_def)

lemma mathInt_digits: "mathInt 10 (digits n) = n"
proof (induction n rule: digits.induct)
  case (1 n)
  show ?case
  proof (cases "n < 10")
    case True
    then show ?thesis
      by (subst digits.simps) (simp add: mathInt_def digitValue_digit)
  next
    case False
    then have "mathInt 10 (digits n) = mathInt 10 (digits (n div 10)) * 10 + n mod 10"
      by (subst digits.simps) (simp add: mathInt_snoc digitValue_digit)
    then show ?thesis
      using "1.IH" [OF False] by simp
  qed
qed

lemma parseInt_decimal:
  assumes "Z \<noteq> []" and "\<forall>c \<in> set Z. isDigit 10 c"
  shows "parseInt Z = Some (int (mathInt 10 Z))"
proof -
  obtain c cs where Z: "Z = c # cs"
    using assms(1) by (cases Z) auto
  have c: "\<not> isWhiteSpace c \<and> c \<noteq> CHR ''-'' \<and> c \<noteq> CHR ''+''"
    using assms(2) Z isDigit_10_plain [of c] by simp
  have x: "take 2 Z \<noteq> ''0x'' \<and> take 2 Z \<noteq> ''0X''"
  proof (cases cs)
    case Nil
    then show ?thesis using Z by simp
  next
    case (Cons d ds)
    then have "isDigit 10 d"
      using assms(2) Z by simp
    then show ?thesis
      using Z Cons isDigit_10_plain [of d] by auto
  qed
  have t: "takeWhile (isDigit 10) Z = Z"
    using assms(2) by (simp add: takeWhile_eq_all_conv)
  have d: "dropWhile isWhiteSpace Z = Z"
    using c Z by simp
  have s: "take 1 Z \<noteq> ''-'' \<and> take 1 Z \<noteq> ''+''"
    using c Z by simp
  have "parseInt Z = (if takeWhile (isDigit 10) Z = [] then None
      else Some (1 * int (mathInt 10 (takeWhile (isDigit 10) Z))))"
    unfolding parseInt_def d Let_def using s x by simp
  then show ?thesis
    using assms(1) by (simp add: t)
qed

lemma parseInt_minus_decimal:
  assumes "Z \<noteq> []" and "\<forall>c \<in> set Z. isDigit 10 c"
  shows "parseInt (CHR ''-'' # Z) = Some (- int (mathInt 10 Z))"
proof -
  obtain c cs where Z: "Z = c # cs"
    using assms(1) by (cases Z) auto
  have x: "take 2 Z \<noteq> ''0x'' \<and> take 2 Z \<noteq> ''0X''"
  proof (cases cs)
    case Nil
    then show ?thesis using Z by simp
  next
    case (Cons d ds)
    then have "isDigit 10 d"
      using assms(2) Z by simp
    then show ?thesis
      using Z Cons isDigit_10_plain [of d] by auto
  qed
  have t: "takeWhile (isDigit 10) Z = Z"
    using assms(2) by (simp add: takeWhile_eq_all_conv)
  have d: "dropWhile isWhiteSpace (CHR ''-'' # Z) = CHR ''-'' # Z"
    by (simp add: isWhiteSpace_def)
  have "parseInt (CHR ''-'' # Z) = (if takeWhile (isDigit 10) Z = [] then None
      else Some (- 1 * int (mathInt 10 (takeWhile (isDigit 10) Z))))"
    unfolding parseInt_def d Let_def using x by simp
  then show ?thesis
    using assms(1) by (simp add: t)
qed

lemma parseInt_num: "parseInt (num i) = Some i"
proof (cases "i < 0")
  case True
  then show ?thesis
    using parseInt_minus_decimal [of "digits (nat (- i))"] digits_all digits_nonempty
    by (simp add: num_def mathInt_digits)
next
  case False
  then show ?thesis
    using parseInt_decimal [of "digits (nat i)"] digits_all digits_nonempty
    by (simp add: num_def mathInt_digits)
qed

text \<open>
  An integer of at most 53 binary digits, and 2 to the power 53 itself, is its own
  Number. In a text that starts with decimal digits followed by a character that is
  neither a digit nor the letter x, \<^verbatim>\<open>parseInt\<close> reads exactly those digits. It reads no
  integer in a text of white space only, nor in one whose first character after the white
  space is neither a sign nor a decimal digit.
\<close>

lemma bitlength_le: "m < 2 ^ k \<Longrightarrow> bitlength m \<le> k"
proof (induction k arbitrary: m)
  case 0
  then show ?case
    by (subst bitlength.simps) simp
next
  case (Suc k)
  show ?case
  proof (cases "m \<le> 0")
    case True
    then show ?thesis
      by (subst bitlength.simps) simp
  next
    case False
    have "m div 2 < 2 ^ k"
      using Suc.prems by simp
    then have "bitlength (m div 2) \<le> k"
      by (rule Suc.IH)
    then show ?thesis
      using False by (subst bitlength.simps) simp
  qed
qed

lemma round53_exact:
  assumes "m \<le> 2 ^ 53"
  shows "round53 m = m"
proof (cases "m = 2 ^ 53")
  case True
  have "round53 (2 ^ 53) = 2 ^ 53"
    by code_simp
  then show ?thesis
    using True by simp
next
  case False
  then have "m < 2 ^ 53"
    using assms by simp
  then have "bitlength m \<le> 53"
    by (rule bitlength_le)
  then show ?thesis
    by (simp add: round53_def)
qed

lemma toNumber_exact:
  assumes "\<bar>n\<bar> \<le> 2 ^ 53"
  shows "toNumber n = Finite n"
proof -
  have r: "round53 \<bar>n\<bar> = \<bar>n\<bar>"
    using assms by (rule round53_exact)
  have "(2::int) ^ 53 < 2 ^ 1024"
    by simp
  then have "\<not> 2 ^ 1024 \<le> \<bar>n\<bar>"
    using assms by linarith
  moreover have "(if n < 0 then - \<bar>n\<bar> else \<bar>n\<bar>) = n"
    by simp
  ultimately show ?thesis
    unfolding toNumber_def r Let_def by (simp only: if_False)
qed

lemma parseInt_prefix:
  assumes "list_all (isDigit 10) (c # Z)" and "\<not> isDigit 10 d" and "d \<noteq> CHR ''x''" and "d \<noteq> CHR ''X''"
  shows "parseInt (c # Z @ d # rest) = Some (int (mathInt 10 (c # Z)))"
proof -
  define S where "S = c # Z @ d # rest"
  have c: "\<not> isWhiteSpace c \<and> c \<noteq> CHR ''-'' \<and> c \<noteq> CHR ''+''"
    using assms(1) isDigit_10_plain [of c] by simp
  have x: "take 2 S \<noteq> ''0x'' \<and> take 2 S \<noteq> ''0X''"
  proof (cases Z)
    case Nil
    then show ?thesis using assms(3,4) by (simp add: S_def)
  next
    case (Cons z zs)
    then have "isDigit 10 z"
      using assms(1) by simp
    then show ?thesis
      using Cons isDigit_10_plain [of z] by (auto simp: S_def)
  qed
  have "takeWhile (isDigit 10) ((c # Z) @ d # rest) = takeWhile (isDigit 10) (c # Z)"
    using assms(2) by (rule takeWhile_tail)
  also have "\<dots> = c # Z"
    using assms(1) by (simp add: takeWhile_eq_all_conv list_all_iff)
  finally have t: "takeWhile (isDigit 10) S = c # Z"
    by (simp add: S_def)
  have d: "dropWhile isWhiteSpace S = S"
    using c by (simp add: S_def)
  have s: "take 1 S \<noteq> ''-'' \<and> take 1 S \<noteq> ''+''"
    using c by (simp add: S_def)
  have "parseInt S = (if takeWhile (isDigit 10) S = [] then None
      else Some (1 * int (mathInt 10 (takeWhile (isDigit 10) S))))"
    unfolding parseInt_def d Let_def using s x by simp
  then have "parseInt S = Some (int (mathInt 10 (c # Z)))"
    by (simp add: t)
  then show ?thesis
    by (simp only: S_def)
qed

lemma parseInt_blank: "list_all isWhiteSpace ws \<Longrightarrow> parseInt ws = None"
proof -
  assume a: "list_all isWhiteSpace ws"
  then have S: "dropWhile isWhiteSpace ws = []"
    by (simp add: list_all_iff)
  show ?thesis
    unfolding parseInt_def S Let_def by simp
qed

lemma parseInt_no_digit:
  assumes ws: "list_all isWhiteSpace ws" and c: "\<not> isWhiteSpace c"
    and p: "c \<noteq> CHR ''+''" and m: "c \<noteq> CHR ''-''" and d: "\<not> isDigit 10 c"
  shows "parseInt (ws @ c # rest) = None"
proof -
  have S: "dropWhile isWhiteSpace (ws @ c # rest) = c # rest"
    using ws c by (simp add: list_all_iff dropWhile_append2)
  have z: "c \<noteq> CHR ''0''"
    using d by (auto simp: isDigit_def digitValue_def)
  show ?thesis
    unfolding parseInt_def S Let_def using p m z d by simp
qed

text \<open>
  Claim C7, as amended. The validator rejects an absent argument with the
  missing-parameter error, rejects an argument in which \<^verbatim>\<open>parseInt\<close> finds no integer
  prefix with the invalid-parameter error (so a text of white space only, and a text
  whose first character after the white space is neither a sign nor a decimal digit),
  and otherwise resolves to the Number for the integer that was read. Up to 2 to the power 53 in magnitude that Number is the integer
  itself, sign and magnitude as given and nothing clamped: so the decimal text of such
  an integer resolves to it, and so does a text that goes on after its decimal digits.
  Beyond, the Number is the nearest double, or an infinity.
\<close>

theorem validateId_Number_result:
  "validateId_Number None w = (Rejected MissingParameter, w)
   \<and> (parseInt s = None \<longrightarrow> validateId_Number (Some s) w = (Rejected InvalidParameter, w))
   \<and> (parseInt s = Some n \<longrightarrow> validateId_Number (Some s) w = (Resolved (toNumber n), w))
   \<and> (parseInt s = Some n \<and> \<bar>n\<bar> \<le> 2 ^ 53 \<longrightarrow>
        validateId_Number (Some s) w = (Resolved (Finite n), w))
   \<and> (\<bar>i\<bar> \<le> 2 ^ 53 \<longrightarrow> validateId_Number (Some (num i)) w = (Resolved (Finite i), w))
   \<and> (list_all (isDigit 10) (c # Z) \<and> \<not> isDigit 10 d \<and> d \<noteq> CHR ''x'' \<and> d \<noteq> CHR ''X'' \<longrightarrow>
        validateId_Number (Some (c # Z @ d # rest)) w =
          (Resolved (toNumber (int (mathInt 10 (c # Z)))), w))
   \<and> (list_all isWhiteSpace ws \<longrightarrow>
        validateId_Number (Some ws) w = (Rejected InvalidParameter, w))
   \<and> (list_all isWhiteSpace ws \<and> \<not> isWhiteSpace x \<and> x \<noteq> CHR ''+'' \<and> x \<noteq> CHR ''-''
        \<and> \<not> isDigit 10 x \<longrightarrow>
        validateId_Number (Some (ws @ x # tail)) w = (Rejected InvalidParameter, w))"
proof -
  have 1: "validateId_Number None w = (Rejected MissingParameter, w)"
    by (simp add: validateId_Number_def)
  have 2: "parseInt s = None \<longrightarrow> validateId_Number (Some s) w = (Rejected InvalidParameter, w)"
    by (simp add: validateId_Number_def parseInt_Number_def)
  have 3: "parseInt s = Some n \<longrightarrow> validateId_Number (Some s) w = (Resolved (toNumber n), w)"
    by (simp add: validateId_Number_def parseInt_Number_def)
  have 4: "parseInt s = Some n \<and> \<bar>n\<bar> \<le> 2 ^ 53 \<longrightarrow>
        validateId_Number (Some s) w = (Resolved (Finite n), w)"
    by (simp add: validateId_Number_def parseInt_Number_def toNumber_exact)
  have 5: "\<bar>i\<bar> \<le> 2 ^ 53 \<longrightarrow> validateId_Number (Some (num i)) w = (Resolved (Finite i), w)"
    by (simp add: validateId_Number_def parseInt_Number_def parseInt_num toNumber_exact)
  have 6: "list_all (isDigit 10) (c # Z) \<and> \<not> isDigit 10 d \<and> d \<noteq> CHR ''x'' \<and> d \<noteq> CHR ''X'' \<longrightarrow>
        validateId_Number (Some (c # Z @ d # rest)) w =
          (Resolved (toNumber (int (mathInt 10 (c # Z)))), w)"
    using parseInt_prefix [of c Z d rest]
    by (simp add: validateId_Number_def parseInt_Number_def)
  have 7: "list_all isWhiteSpace ws \<longrightarrow>
        validateId_Number (Some ws) w = (Rejected InvalidParameter, w)"
    using parseInt_blank [of ws]
    by (simp add: validateId_Number_def parseInt_Number_def)
  have 8: "list_all isWhiteSpace ws \<and> \<not> isWhiteSpace x \<and> x \<noteq> CHR ''+'' \<and> x \<noteq> CHR ''-''
        \<and> \<not> isDigit 10 x \<longrightarrow>
        validateId_Number (Some (ws @ x # tail)) w = (Rejected InvalidParameter, w)"
    using parseInt_no_digit [of ws x tail]
    by (simp add: validateId_Number_def parseInt_Number_def)
  show ?thesis
    by (intro conjI) (fact 1, fact 2, fact 3, fact 4, fact 5, fact 6, fact 7, fact 8)
qed

theorem validateId_Number_result_witness:
  "validateId_Number None example_world = (Rejected MissingParameter, example_world)
   \<and> parseInt ''abc'' = None
   \<and> validateId_Number (Some ''abc'') example_world = (Rejected InvalidParameter, example_world)
   \<and> parseInt '' -0x1Fg'' = Some (- 31) \<and> \<bar>- 31 :: int\<bar> \<le> 2 ^ 53
   \<and> validateId_Number (Some '' -0x1Fg'') example_world = (Resolved (Finite (- 31)), example_world)
   \<and> parseInt ''9007199254740995'' = Some 9007199254740995
   \<and> toNumber 9007199254740995 = Finite 9007199254740996
   \<and> validateId_Number (Some ''9007199254740995'') example_world =
        (Resolved (Finite 9007199254740996), example_world)
   \<and> parseInt ''9999999999999999999999999999999999999999999999999999999999999999999999999999999999999999999999999999999999999999999999999999999999999999999999999999999999999999999999999999999999999999999999999999999999999999999999999999999999999999999999999999999999999999999999999999999999999999999999999999999999999999999999'' = Some (10 ^ 310 - 1)
   \<and> toNumber (10 ^ 310 - 1) = PlusInfinity
   \<and> validateId_Number (Some ''9999999999999999999999999999999999999999999999999999999999999999999999999999999999999999999999999999999999999999999999999999999999999999999999999999999999999999999999999999999999999999999999999999999999999999999999999999999999999999999999999999999999999999999999999999999999999999999999999999999999999999999999'') example_world = (Resolved PlusInfinity, example_world)
   \<and> \<bar>- 120 :: int\<bar> \<le> 2 ^ 53 \<and> num (- 120) = ''-120''
   \<and> validateId_Number (Some ''-120'') example_world = (Resolved (Finite (- 120)), example_world)
   \<and> list_all (isDigit 10) ''42'' \<and> \<not> isDigit 10 CHR ''p''
   \<and> validateId_Number (Some ''42px'') example_world = (Resolved (Finite 42), example_world)
   \<and> list_all isWhiteSpace [CHR 0x20, CHR 0x09]
   \<and> validateId_Number (Some [CHR 0x20, CHR 0x09]) example_world =
        (Rejected InvalidParameter, example_world)
   \<and> \<not> isWhiteSpace CHR ''q'' \<and> \<not> isDigit 10 CHR ''q''
   \<and> validateId_Number (Some [CHR 0x20, CHR 0x09, CHR ''q'', CHR ''7'']) example_world =
        (Rejected InvalidParameter, example_world)"
proof -
  have a: "parseInt ''abc'' = None"
    by code_simp
  have b: "parseInt '' -0x1Fg'' = Some (- 31)"
    by code_simp
  have b': "\<bar>- 31 :: int\<bar> \<le> 2 ^ 53"
    by simp
  have c: "parseInt ''9007199254740995'' = Some 9007199254740995"
    by (simp add: parseInt_def isWhiteSpace_def isDigit_def digitValue_def mathInt_def)
  have c': "toNumber 9007199254740995 = Finite 9007199254740996"
    by code_simp
  have d: "parseInt ''9999999999999999999999999999999999999999999999999999999999999999999999999999999999999999999999999999999999999999999999999999999999999999999999999999999999999999999999999999999999999999999999999999999999999999999999999999999999999999999999999999999999999999999999999999999999999999999999999999999999999999999999'' = Some (10 ^ 310 - 1)"
    by (simp add: parseInt_def isWhiteSpace_def isDigit_def digitValue_def mathInt_def)
  have d': "toNumber (10 ^ 310 - 1) = PlusInfinity"
    by code_simp
  have e: "\<bar>- 120 :: int\<bar> \<le> 2 ^ 53"
    by simp
  have e': "num (- 120) = ''-120''"
    by code_simp
  have f1: "list_all (isDigit 10) ''42''"
    by code_simp
  have f2: "\<not> isDigit 10 CHR ''p''"
    by code_simp
  have f': "toNumber (int (mathInt 10 ''42'')) = Finite 42"
    by code_simp
  have g: "CHR ''p'' \<noteq> CHR ''x'' \<and> CHR ''p'' \<noteq> CHR ''X''"
    by simp
  have 1: "validateId_Number (Some ''abc'') example_world = (Rejected InvalidParameter, example_world)"
    using a validateId_Number_result [where w = example_world and s = "''abc''"] by blast
  have 2: "validateId_Number (Some '' -0x1Fg'') example_world =
      (Resolved (Finite (- 31)), example_world)"
    using b b' validateId_Number_result [where w = example_world and s = "'' -0x1Fg''" and n = "- 31"]
    by blast
  have "validateId_Number (Some ''9007199254740995'') example_world =
      (Resolved (toNumber 9007199254740995), example_world)"
    using c validateId_Number_result [where w = example_world and s = "''9007199254740995''"
        and n = 9007199254740995]
    by blast
  then have 3: "validateId_Number (Some ''9007199254740995'') example_world =
      (Resolved (Finite 9007199254740996), example_world)"
    by (simp only: c')
  have "validateId_Number (Some ''9999999999999999999999999999999999999999999999999999999999999999999999999999999999999999999999999999999999999999999999999999999999999999999999999999999999999999999999999999999999999999999999999999999999999999999999999999999999999999999999999999999999999999999999999999999999999999999999999999999999999999999999'') example_world =
      (Resolved (toNumber (10 ^ 310 - 1)), example_world)"
    using d validateId_Number_result [where w = example_world and s = "''9999999999999999999999999999999999999999999999999999999999999999999999999999999999999999999999999999999999999999999999999999999999999999999999999999999999999999999999999999999999999999999999999999999999999999999999999999999999999999999999999999999999999999999999999999999999999999999999999999999999999999999999''"
        and n = "10 ^ 310 - 1"]
    by blast
  then have 4: "validateId_Number (Some ''9999999999999999999999999999999999999999999999999999999999999999999999999999999999999999999999999999999999999999999999999999999999999999999999999999999999999999999999999999999999999999999999999999999999999999999999999999999999999999999999999999999999999999999999999999999999999999999999999999999999999999999999'') example_world =
      (Resolved PlusInfinity, example_world)"
    by (simp only: d')
  have "validateId_Number (Some (num (- 120))) example_world =
      (Resolved (Finite (- 120)), example_world)"
    using e validateId_Number_result [where w = example_world and i = "- 120"] by blast
  then have 5: "validateId_Number (Some ''-120'') example_world =
      (Resolved (Finite (- 120)), example_world)"
    by (simp only: e')
  have "validateId_Number (Some (CHR ''4'' # ''2'' @ CHR ''p'' # ''x'')) example_world =
      (Resolved (toNumber (int (mathInt 10 (CHR ''4'' # ''2'')))), example_world)"
    using f1 f2 g validateId_Number_result [where w = example_world and c = "CHR ''4''" and Z = "''2''"
        and d = "CHR ''p''" and rest = "''x''"]
    by blast
  then have 6: "validateId_Number (Some ''42px'') example_world = (Resolved (Finite 42), example_world)"
    using f' by simp
  have h: "list_all isWhiteSpace [CHR 0x20, CHR 0x09]"
    by code_simp
  have h1: "\<not> isWhiteSpace CHR ''q''"
    by code_simp
  have h2: "\<not> isDigit 10 CHR ''q''"
    by code_simp
  have h3: "CHR ''q'' \<noteq> CHR ''+'' \<and> CHR ''q'' \<noteq> CHR ''-''"
    by simp
  have 7: "validateId_Number (Some [CHR 0x20, CHR 0x09]) example_world =
      (Rejected InvalidParameter, example_world)"
    using h validateId_Number_result [where w = example_world and ws = "[CHR 0x20, CHR 0x09]"]
    by blast
  have "validateId_Number (Some ([CHR 0x20, CHR 0x09] @ CHR ''q'' # [CHR ''7''])) example_world =
      (Rejected InvalidParameter, example_world)"
    using h h1 h2 h3 validateId_Number_result [where w = example_world
        and ws = "[CHR 0x20, CHR 0x09]" and x = "CHR ''q''" and tail = "[CHR ''7'']"]
    by blast
  then have 8: "validateId_Number (Some [CHR 0x20, CHR 0x09, CHR ''q'', CHR ''7'']) example_world =
      (Rejected InvalidParameter, example_world)"
    by simp
  have z: "validateId_Number None example_world = (Rejected MissingParameter, example_world)"
    using validateId_Number_result [where w = example_world] by blast
  show ?thesis
    by (intro conjI) (fact z, fact a, fact 1, fact b, fact b', fact 2, fact c, fact c', fact 3,
      fact d, fact d', fact 4, fact e, fact e', fact 5, fact f1, fact f2, fact 6, fact h, fact 7,
      fact h1, fact h2, fact 8)
qed

text \<open>
  The claim as it was stated, that the validator resolves to the integer that was
  parsed, fails beyond 2 to the power 53: in the argument ``9007199254740993'' that
  integer is read, and the validator resolves to 9007199254740992, not to it.
\<close>

theorem validateId_Number_rounds:
  "parseInt ''9007199254740993'' = Some 9007199254740993
   \<and> validateId_Number (Some ''9007199254740993'') example_world =
       (Resolved (Finite 9007199254740992), example_world)
   \<and> validateId_Number (Some ''9007199254740993'') example_world \<noteq>
       (Resolved (Finite 9007199254740993), example_world)"
proof -
  have p: "parseInt ''9007199254740993'' = Some 9007199254740993"
    by (simp add: parseInt_def isWhiteSpace_def isDigit_def digitValue_def mathInt_def)
  have t: "toNumber 9007199254740993 = Finite 9007199254740992"
    by code_simp
  show ?thesis
    by (simp add: validateId_Number_def parseInt_Number_def p t)
qed

subsection \<open>Add, then show\<close>








subsection \<open>The play round\<close>

text \<open>
  A rule for proving a property \<open>Q\<close> of every run of \<^verbatim>\<open>playOne\<close>, with one case for each way a
  call of \<^verbatim>\<open>playOne\<close> goes on: the pool is empty; no quiz is found at the drawn index; the
  question is asked and no line comes; the response is wrong; the response is right and
  \<^verbatim>\<open>playOne\<close> is called again. \<open>A\<close> is what the caller adds to the calls right after the
  question: the prompt of the chain of \<^verbatim>\<open>playCmd\<close>, or nothing.
\<close>

lemmas line_defs = asks_def no_more_def game_over_def correcto_def incorrecto_def

lemma splice1_in_range:
  "0 \<le> i \<Longrightarrow> i < int (length xs) \<Longrightarrow> splice1 xs i = take (nat i) xs @ drop (Suc (nat i)) xs"
  by (simp add: splice1_def Let_def min_def)

lemma playOne_rule:
  fixes Q :: "event list \<Rightarrow> nat \<Rightarrow> pstate \<Rightarrow> world \<Rightarrow> pstate \<times> world \<Rightarrow> bool"
  assumes A: "A = [] \<or> A = [Prompt]" and after: "\<And>w. after w = w\<lparr>out := out w @ A\<rparr>"
    and won: "\<And>A k st w. A = [] \<or> A = [Prompt] \<Longrightarrow> toBeResolved st = [] \<Longrightarrow>
      Q A k st w (st, w\<lparr>out := out w @ no_more # game_over (score st) @ A\<rparr>)"
    and err: "\<And>A k st w i. A = [] \<or> A = [Prompt] \<Longrightarrow> toBeResolved st \<noteq> [] \<Longrightarrow>
      i = \<lfloor>random e k * of_nat (length (toBeResolved st))\<rfloor> \<Longrightarrow>
      \<not> (0 \<le> i \<and> i < int (length (toBeResolved st)) \<and> toBeResolved st ! nat i < length P) \<Longrightarrow>
      Q A k st w (st\<lparr>toBeResolved := splice1 (toBeResolved st) i\<rparr>,
                  w\<lparr>out := out w @ [ErrorLog undefined_question, Prompt] @ A\<rparr>)"
    and pending: "\<And>A k st w i j. A = [] \<or> A = [Prompt] \<Longrightarrow>
      i = \<lfloor>random e k * of_nat (length (toBeResolved st))\<rfloor> \<Longrightarrow>
      0 \<le> i \<Longrightarrow> i < int (length (toBeResolved st)) \<Longrightarrow> j = toBeResolved st ! nat i \<Longrightarrow>
      j < length P \<Longrightarrow> input w = [] \<Longrightarrow>
      Q A k st w (st\<lparr>toBeResolved := splice1 (toBeResolved st) i\<rparr>,
                  w\<lparr>out := out w @ asks (P ! j) # A\<rparr>)"
    and lost: "\<And>A k st w i j l ls. A = [] \<or> A = [Prompt] \<Longrightarrow>
      i = \<lfloor>random e k * of_nat (length (toBeResolved st))\<rfloor> \<Longrightarrow>
      0 \<le> i \<Longrightarrow> i < int (length (toBeResolved st)) \<Longrightarrow> j = toBeResolved st ! nat i \<Longrightarrow>
      j < length P \<Longrightarrow> input w = l # ls \<Longrightarrow>
      toLowerCase (trim l) \<noteq> toLowerCase (answer (P ! j)) \<Longrightarrow>
      Q A k st w (st\<lparr>toBeResolved := splice1 (toBeResolved st) i\<rparr>,
                  w\<lparr>input := ls,
                    out := out w @ asks (P ! j) # A @ incorrecto # game_over (score st)\<rparr>)"
    and correct: "\<And>A k st w i j l ls r. A = [] \<or> A = [Prompt] \<Longrightarrow>
      i = \<lfloor>random e k * of_nat (length (toBeResolved st))\<rfloor> \<Longrightarrow>
      0 \<le> i \<Longrightarrow> i < int (length (toBeResolved st)) \<Longrightarrow> j = toBeResolved st ! nat i \<Longrightarrow>
      j < length P \<Longrightarrow> input w = l # ls \<Longrightarrow>
      toLowerCase (trim l) = toLowerCase (answer (P ! j)) \<Longrightarrow>
      Q [] (Suc k) (st\<lparr>toBeResolved := splice1 (toBeResolved st) i, score := score st + 1\<rparr>)
        (w\<lparr>input := ls, out := out w @ asks (P ! j) # A @ [correcto (score st + 1)]\<rparr>) r \<Longrightarrow>
      Q A k st w r"
  shows "Q A k st w (playOne e P after k st w)"
proof -
  have "A = [] \<or> A = [Prompt] \<Longrightarrow> (\<And>w. after w = w\<lparr>out := out w @ A\<rparr>) \<Longrightarrow>
      n = length (toBeResolved st) \<Longrightarrow> Q A k st w (playOne e P after k st w)" for n
  proof (induction n arbitrary: A after k st w)
    case 0
    then have "playOne e P after k st w =
        (st, w\<lparr>out := out w @ no_more # game_over (score st) @ A\<rparr>)"
      by (subst playOne.simps) (simp add: Let_def channel_defs line_defs)
    then show ?case
      using won [OF "0.prems"(1), of st k w] "0.prems"(3) by simp
  next
    case (Suc n)
    define i where "i = \<lfloor>random e k * of_nat (length (toBeResolved st))\<rfloor>"
    have ne: "toBeResolved st \<noteq> []"
      using Suc.prems(3) by auto
    show ?case
    proof (cases "0 \<le> i \<and> i < int (length (toBeResolved st)) \<and> toBeResolved st ! nat i < length P")
      case False
      then have "playOne e P after k st w =
          (st\<lparr>toBeResolved := splice1 (toBeResolved st) i\<rparr>,
           w\<lparr>out := out w @ [ErrorLog undefined_question, Prompt] @ A\<rparr>)"
        using ne
        by (subst playOne.simps)
          (auto simp: Let_def nth_js_def i_def Suc.prems(2) channel_defs split: option.splits)
      then show ?thesis
        using err [OF Suc.prems(1) ne i_def False, of w] by simp
    next
      case True
      define j where "j = toBeResolved st ! nat i"
      have picked: "(case nth_js (toBeResolved st) i of None \<Rightarrow> None
                     | Some j \<Rightarrow> nth_js P (int j)) = Some (P ! j)"
        using True by (simp add: nth_js_def j_def)
      have asked: "after (ask (question (P ! j) @ ''? '') w) = w\<lparr>out := out w @ asks (P ! j) # A\<rparr>"
        by (simp add: Suc.prems(2) channel_defs line_defs)
      show ?thesis
      proof (cases "input w")
        case Nil
        then have "playOne e P after k st w =
            (st\<lparr>toBeResolved := splice1 (toBeResolved st) i\<rparr>,
             w\<lparr>out := out w @ asks (P ! j) # A\<rparr>)"
          using ne picked
          by (subst playOne.simps) (simp add: Let_def i_def [symmetric] asked receive_def)
        then show ?thesis
          using pending [OF Suc.prems(1) i_def _ _ j_def _ Nil] True j_def by simp
      next
        case (Cons l ls)
        show ?thesis
        proof (cases "toLowerCase (trim l) = toLowerCase (answer (P ! j))")
          case False
          then have "playOne e P after k st w =
              (st\<lparr>toBeResolved := splice1 (toBeResolved st) i\<rparr>,
               w\<lparr>input := ls,
                 out := out w @ asks (P ! j) # A @ incorrecto # game_over (score st)\<rparr>)"
            using ne picked Cons
            by (subst playOne.simps)
              (simp add: Let_def i_def [symmetric] Suc.prems(2) receive_def trim_trim channel_defs
                line_defs)
          then show ?thesis
            using lost [OF Suc.prems(1) i_def _ _ j_def _ Cons False] True j_def by simp
        next
          case match: True
          let ?st2 = "st\<lparr>toBeResolved := splice1 (toBeResolved st) i, score := score st + 1\<rparr>"
          let ?w2 = "w\<lparr>input := ls, out := out w @ asks (P ! j) # A @ [correcto (score st + 1)]\<rparr>"
          have eq: "playOne e P after k st w = playOne e P (\<lambda>w. w) (Suc k) ?st2 ?w2"
            using ne picked Cons match
            by (subst playOne.simps)
              (simp add: Let_def i_def [symmetric] Suc.prems(2) receive_def trim_trim channel_defs
                line_defs)
          have len: "n = length (toBeResolved ?st2)"
            using length_splice1 [of i "toBeResolved st"] True Suc.prems(3) by simp
          have "Q [] (Suc k) ?st2 ?w2 (playOne e P (\<lambda>w. w) (Suc k) ?st2 ?w2)"
            by (rule Suc.IH [OF _ _ len]) simp_all
          then show ?thesis
            using correct [OF Suc.prems(1) i_def _ _ j_def _ Cons match] True j_def eq by simp
        qed
      qed
    qed
  qed
  then show ?thesis
    using A after by blast
qed

text \<open>
  Removing one index from the pool keeps the other indices, keeps them distinct, and when
  the pool has no index twice the removed one is gone.
\<close>

lemma splice1_take_drop: "\<exists>s. splice1 xs i = take s xs @ drop (Suc s) xs"
  by (auto simp: splice1_def Let_def)

lemma set_splice1: "set (splice1 xs i) \<subseteq> set xs"
proof -
  obtain s where "splice1 xs i = take s xs @ drop (Suc s) xs"
    using splice1_take_drop by blast
  then show ?thesis
    using set_take_subset [of s xs] set_drop_subset [of "Suc s" xs] by auto
qed

lemma distinct_splice1: "distinct xs \<Longrightarrow> distinct (splice1 xs i)"
proof -
  assume d: "distinct xs"
  obtain s where s: "splice1 xs i = take s xs @ drop (Suc s) xs"
    using splice1_take_drop by blast
  have "set (take s xs) \<inter> set (drop (Suc s) xs) = {}"
    using d by (intro set_take_disj_set_drop_if_distinct) simp_all
  then show ?thesis
    using d s by simp
qed

lemma splice1_removes:
  assumes "distinct xs" and "0 \<le> i" and "i < int (length xs)"
  shows "xs ! nat i \<notin> set (splice1 xs i)"
proof -
  have lt: "nat i < length xs"
    using assms by simp
  have "xs = take (nat i) xs @ xs ! nat i # drop (Suc (nat i)) xs"
    using lt by (rule id_take_nth_drop)
  then have "distinct (take (nat i) xs @ xs ! nat i # drop (Suc (nat i)) xs)"
    using assms(1) by simp
  then show ?thesis
    using assms by (simp add: splice1_in_range)
qed

lemma filter_question_A: "A = [] \<or> A = [Prompt] \<Longrightarrow> filter is_question A = []"
  by auto

lemma is_end_game_over: "list_ex is_end (game_over s)"
  by (simp add: game_over_def)

lemma playOne_asks_once:
  assumes "A = [] \<or> A = [Prompt]" and "\<And>w. after w = w\<lparr>out := out w @ A\<rparr>"
  shows "distinct (toBeResolved st) \<longrightarrow>
    (\<exists>js tr. out (snd (playOne e P after k st w)) = out w @ tr
       \<and> filter is_question tr = map (\<lambda>j. asks (P ! j)) js
       \<and> distinct js \<and> set js \<subseteq> set (toBeResolved st)
       \<and> set (toBeResolved (fst (playOne e P after k st w))) \<subseteq> set (toBeResolved st) - set js
       \<and> (length (toBeResolved st) \<le> length (input w) \<longrightarrow> list_ex is_end tr))"
proof (rule playOne_rule [where Q = "\<lambda>A k st w r. distinct (toBeResolved st) \<longrightarrow>
    (\<exists>js tr. out (snd r) = out w @ tr
       \<and> filter is_question tr = map (\<lambda>j. asks (P ! j)) js
       \<and> distinct js \<and> set js \<subseteq> set (toBeResolved st)
       \<and> set (toBeResolved (fst r)) \<subseteq> set (toBeResolved st) - set js
       \<and> (length (toBeResolved st) \<le> length (input w) \<longrightarrow> list_ex is_end tr))", OF assms])
  fix A :: "event list" and k :: nat and st :: pstate and w :: world
  assume A: "A = [] \<or> A = [Prompt]" and "toBeResolved st = []"
  then show "distinct (toBeResolved st) \<longrightarrow>
    (\<exists>js tr. out (snd (st, w\<lparr>out := out w @ no_more # game_over (score st) @ A\<rparr>)) = out w @ tr
       \<and> filter is_question tr = map (\<lambda>j. asks (P ! j)) js
       \<and> distinct js \<and> set js \<subseteq> set (toBeResolved st)
       \<and> set (toBeResolved (fst (st, w\<lparr>out := out w @ no_more # game_over (score st) @ A\<rparr>)))
           \<subseteq> set (toBeResolved st) - set js
       \<and> (length (toBeResolved st) \<le> length (input w) \<longrightarrow> list_ex is_end tr))"
    by (intro impI exI [of _ "[]"] exI [of _ "no_more # game_over (score st) @ A"])
      (auto simp: line_defs)
next
  fix A :: "event list" and k :: nat and st :: pstate and w :: world and i :: int
  assume A: "A = [] \<or> A = [Prompt]"
  let ?st1 = "st\<lparr>toBeResolved := splice1 (toBeResolved st) i\<rparr>"
  let ?w1 = "w\<lparr>out := out w @ [ErrorLog undefined_question, Prompt] @ A\<rparr>"
  show "distinct (toBeResolved st) \<longrightarrow>
    (\<exists>js tr. out (snd (?st1, ?w1)) = out w @ tr
       \<and> filter is_question tr = map (\<lambda>j. asks (P ! j)) js
       \<and> distinct js \<and> set js \<subseteq> set (toBeResolved st)
       \<and> set (toBeResolved (fst (?st1, ?w1))) \<subseteq> set (toBeResolved st) - set js
       \<and> (length (toBeResolved st) \<le> length (input w) \<longrightarrow> list_ex is_end tr))"
    using A set_splice1 [of "toBeResolved st" i]
    by (intro impI exI [of _ "[]"] exI [of _ "[ErrorLog undefined_question, Prompt] @ A"]) auto
next
  fix A :: "event list" and k :: nat and st :: pstate and w :: world and i :: int and j :: nat
  assume A: "A = [] \<or> A = [Prompt]"
    and i: "0 \<le> i" "i < int (length (toBeResolved st))" and j: "j = toBeResolved st ! nat i"
    and inp: "input w = []"
  let ?st1 = "st\<lparr>toBeResolved := splice1 (toBeResolved st) i\<rparr>"
  let ?w1 = "w\<lparr>out := out w @ asks (P ! j) # A\<rparr>"
  show "distinct (toBeResolved st) \<longrightarrow>
    (\<exists>js tr. out (snd (?st1, ?w1)) = out w @ tr
       \<and> filter is_question tr = map (\<lambda>j. asks (P ! j)) js
       \<and> distinct js \<and> set js \<subseteq> set (toBeResolved st)
       \<and> set (toBeResolved (fst (?st1, ?w1))) \<subseteq> set (toBeResolved st) - set js
       \<and> (length (toBeResolved st) \<le> length (input w) \<longrightarrow> list_ex is_end tr))"
  proof
    assume d: "distinct (toBeResolved st)"
    have mem: "j \<in> set (toBeResolved st)"
      using i j by simp
    have out: "j \<notin> set (splice1 (toBeResolved st) i)"
      using splice1_removes [OF d i] j by simp
    show "\<exists>js tr. out (snd (?st1, ?w1)) = out w @ tr
       \<and> filter is_question tr = map (\<lambda>j. asks (P ! j)) js
       \<and> distinct js \<and> set js \<subseteq> set (toBeResolved st)
       \<and> set (toBeResolved (fst (?st1, ?w1))) \<subseteq> set (toBeResolved st) - set js
       \<and> (length (toBeResolved st) \<le> length (input w) \<longrightarrow> list_ex is_end tr)"
      using A mem out set_splice1 [of "toBeResolved st" i] i inp
      by (intro exI [of _ "[j]"] exI [of _ "asks (P ! j) # A"]) (auto simp: asks_def)
  qed
next
  fix A :: "event list" and k :: nat and st :: pstate and w :: world and i :: int and j :: nat
    and l :: string and ls :: "string list"
  assume A: "A = [] \<or> A = [Prompt]"
    and i: "0 \<le> i" "i < int (length (toBeResolved st))" and j: "j = toBeResolved st ! nat i"
    and inp: "input w = l # ls"
  let ?st1 = "st\<lparr>toBeResolved := splice1 (toBeResolved st) i\<rparr>"
  let ?w1 = "w\<lparr>input := ls, out := out w @ asks (P ! j) # A @ incorrecto # game_over (score st)\<rparr>"
  show "distinct (toBeResolved st) \<longrightarrow>
    (\<exists>js tr. out (snd (?st1, ?w1)) = out w @ tr
       \<and> filter is_question tr = map (\<lambda>j. asks (P ! j)) js
       \<and> distinct js \<and> set js \<subseteq> set (toBeResolved st)
       \<and> set (toBeResolved (fst (?st1, ?w1))) \<subseteq> set (toBeResolved st) - set js
       \<and> (length (toBeResolved st) \<le> length (input w) \<longrightarrow> list_ex is_end tr))"
  proof
    assume d: "distinct (toBeResolved st)"
    have mem: "j \<in> set (toBeResolved st)"
      using i j by simp
    have out: "j \<notin> set (splice1 (toBeResolved st) i)"
      using splice1_removes [OF d i] j by simp
    show "\<exists>js tr. out (snd (?st1, ?w1)) = out w @ tr
       \<and> filter is_question tr = map (\<lambda>j. asks (P ! j)) js
       \<and> distinct js \<and> set js \<subseteq> set (toBeResolved st)
       \<and> set (toBeResolved (fst (?st1, ?w1))) \<subseteq> set (toBeResolved st) - set js
       \<and> (length (toBeResolved st) \<le> length (input w) \<longrightarrow> list_ex is_end tr)"
      using A mem out set_splice1 [of "toBeResolved st" i]
      by (intro exI [of _ "[j]"] exI [of _ "asks (P ! j) # A @ incorrecto # game_over (score st)"])
        (auto simp: line_defs)
  qed
next
  fix A :: "event list" and k :: nat and st :: pstate and w :: world and i :: int and j :: nat
    and l :: string and ls :: "string list" and r :: "pstate \<times> world"
  let ?st2 = "st\<lparr>toBeResolved := splice1 (toBeResolved st) i, score := score st + 1\<rparr>"
  let ?w2 = "w\<lparr>input := ls, out := out w @ asks (P ! j) # A @ [correcto (score st + 1)]\<rparr>"
  assume A: "A = [] \<or> A = [Prompt]"
    and i: "0 \<le> i" "i < int (length (toBeResolved st))" and j: "j = toBeResolved st ! nat i"
    and inp: "input w = l # ls"
    and IH: "distinct (toBeResolved ?st2) \<longrightarrow>
      (\<exists>js tr. out (snd r) = out ?w2 @ tr
         \<and> filter is_question tr = map (\<lambda>j. asks (P ! j)) js
         \<and> distinct js \<and> set js \<subseteq> set (toBeResolved ?st2)
         \<and> set (toBeResolved (fst r)) \<subseteq> set (toBeResolved ?st2) - set js
         \<and> (length (toBeResolved ?st2) \<le> length (input ?w2) \<longrightarrow> list_ex is_end tr))"
  show "distinct (toBeResolved st) \<longrightarrow>
    (\<exists>js tr. out (snd r) = out w @ tr
       \<and> filter is_question tr = map (\<lambda>j. asks (P ! j)) js
       \<and> distinct js \<and> set js \<subseteq> set (toBeResolved st)
       \<and> set (toBeResolved (fst r)) \<subseteq> set (toBeResolved st) - set js
       \<and> (length (toBeResolved st) \<le> length (input w) \<longrightarrow> list_ex is_end tr))"
  proof
    assume d: "distinct (toBeResolved st)"
    have mem: "j \<in> set (toBeResolved st)"
      using i j by simp
    have out: "j \<notin> set (splice1 (toBeResolved st) i)"
      using splice1_removes [OF d i] j by simp
    have sub: "set (splice1 (toBeResolved st) i) \<subseteq> set (toBeResolved st)"
      by (rule set_splice1)
    have len: "Suc (length (splice1 (toBeResolved st) i)) = length (toBeResolved st)"
      using i by (rule length_splice1)
    from IH distinct_splice1 [OF d, of i] obtain js tr where
      o: "out (snd r) = out w @ asks (P ! j) # A @ [correcto (score st + 1)] @ tr"
      and q: "filter is_question tr = map (\<lambda>j. asks (P ! j)) js"
      and dj: "distinct js" and sj: "set js \<subseteq> set (splice1 (toBeResolved st) i)"
      and rest: "set (toBeResolved (fst r)) \<subseteq> set (splice1 (toBeResolved st) i) - set js"
      and fin: "length (splice1 (toBeResolved st) i) \<le> length ls \<longrightarrow> list_ex is_end tr"
      by auto
    let ?tr = "asks (P ! j) # A @ [correcto (score st + 1)] @ tr"
    have 1: "out (snd r) = out w @ ?tr"
      using o by simp
    have 2: "filter is_question ?tr = map (\<lambda>j. asks (P ! j)) (j # js)"
      using q A by (auto simp: line_defs)
    have 3: "distinct (j # js)"
      using dj sj out by auto
    have 4: "set (j # js) \<subseteq> set (toBeResolved st)"
      using mem sj sub by auto
    have 5: "set (toBeResolved (fst r)) \<subseteq> set (toBeResolved st) - set (j # js)"
      using rest sub out by auto
    have 6: "length (toBeResolved st) \<le> length (input w) \<longrightarrow> list_ex is_end ?tr"
      using fin len inp by (auto simp: list_ex_iff)
    show "\<exists>js tr. out (snd r) = out w @ tr
       \<and> filter is_question tr = map (\<lambda>j. asks (P ! j)) js
       \<and> distinct js \<and> set js \<subseteq> set (toBeResolved st)
       \<and> set (toBeResolved (fst r)) \<subseteq> set (toBeResolved st) - set js
       \<and> (length (toBeResolved st) \<le> length (input w) \<longrightarrow> list_ex is_end tr)"
      using 1 2 3 4 5 6 by blast
  qed
qed

lemma prompt_appends: "prompt w = w\<lparr>out := out w @ [Prompt]\<rparr>"
  by (simp add: channel_defs)

text \<open>
  Claim C3. In a round over the \<open>N\<close> quizzes of the Store the questions asked are those of
  pairwise different positions \<open>js\<close> of the loaded list; a position that was asked is no
  longer in the pool; so at most \<open>N\<close> questions are asked. The function \<open>playOne\<close> is
  total, and when the user types at least \<open>N\<close> lines the round reaches an end (the final
  score is written).
\<close>

theorem play_asks_each_quiz_once:
  "\<exists>js tr. out (snd (playCmd e w)) = out w @ tr
     \<and> filter is_question tr = map (\<lambda>j. asks (db w ! j)) js
     \<and> distinct js \<and> set js \<subseteq> {0..<length (db w)}
     \<and> set (toBeResolved (fst (playCmd e w))) \<subseteq> {0..<length (db w)} - set js
     \<and> length (filter is_question tr) \<le> length (db w)
     \<and> (length (db w) \<le> length (input w) \<longrightarrow> list_ex is_end tr)"
proof -
  let ?st0 = "\<lparr>score = 0, toBeResolved = [0..<length (db w)]\<rparr>"
  have A: "[Prompt] = [] \<or> [Prompt] = [Prompt]"
    by simp
  have run: "playCmd e w = playOne e (db w) prompt 0 ?st0 w"
    by (simp add: playCmd_def Let_def)
  from playOne_asks_once [OF A prompt_appends, of ?st0 e "db w" 0 w]
  obtain js tr where o: "out (snd (playCmd e w)) = out w @ tr"
    and q: "filter is_question tr = map (\<lambda>j. asks (db w ! j)) js"
    and d: "distinct js" and s: "set js \<subseteq> {0..<length (db w)}"
    and p: "set (toBeResolved (fst (playCmd e w))) \<subseteq> {0..<length (db w)} - set js"
    and t: "length (db w) \<le> length (input w) \<longrightarrow> list_ex is_end tr"
    unfolding run by auto
  have "length js = card (set js)"
    using d by (simp add: distinct_card)
  also have "\<dots> \<le> card {0..<length (db w)}"
    using s by (intro card_mono) simp_all
  finally have "length (filter is_question tr) \<le> length (db w)"
    using q by simp
  with o q d s p t show ?thesis
    by blast
qed

theorem play_asks_each_quiz_once_witness:
  "length (db (example_world\<lparr>input := [''4'', ''Rome'']\<rparr>))
     \<le> length (input (example_world\<lparr>input := [''4'', ''Rome'']\<rparr>))
   \<and> out (snd (playCmd example_env (example_world\<lparr>input := [''4'', ''Rome'']\<rparr>))) =
       [asks \<lparr>quiz_id = 1, question = ''2+2?'', answer = ''4''\<rparr>, Prompt, correcto 1,
        asks \<lparr>quiz_id = 2, question = ''capital of France?'', answer = ''Paris''\<rparr>,
        incorrecto, Log [T '' Fin del juego. Aciertos: '', T ''1''], BigLog ''1'' ''magenta'', Prompt]
   \<and> (\<exists>js tr. out (snd (playCmd example_env (example_world\<lparr>input := [''4'', ''Rome'']\<rparr>))) =
          out (example_world\<lparr>input := [''4'', ''Rome'']\<rparr>) @ tr
        \<and> filter is_question tr =
            map (\<lambda>j. asks (db (example_world\<lparr>input := [''4'', ''Rome'']\<rparr>) ! j)) js
        \<and> distinct js
        \<and> length (filter is_question tr) \<le> 2
        \<and> list_ex is_end tr)"
proof -
  let ?w = "example_world\<lparr>input := [''4'', ''Rome'']\<rparr>"
  have l: "length (db ?w) \<le> length (input ?w)"
    by (simp add: example_world_def)
  have n: "length (db ?w) = 2"
    by (simp add: example_world_def)
  have o: "out (snd (playCmd example_env ?w)) =
       [asks \<lparr>quiz_id = 1, question = ''2+2?'', answer = ''4''\<rparr>, Prompt, correcto 1,
        asks \<lparr>quiz_id = 2, question = ''capital of France?'', answer = ''Paris''\<rparr>,
        incorrecto, Log [T '' Fin del juego. Aciertos: '', T ''1''], BigLog ''1'' ''magenta'', Prompt]"
    by code_simp
  show ?thesis
    using l o play_asks_each_quiz_once [of example_env ?w] unfolding n
    by blast
qed

subsection \<open>The pool of a round stays in bounds\<close>

text \<open>
  \<^verbatim>\<open>Math.random()\<close> lies in the range from 0 up to but not including 1, so the index
  \<^verbatim>\<open>Math.floor(Math.random() * toBeResolved.length)\<close> lies within a pool that is not empty.
\<close>

lemma draw_in_range:
  assumes "0 \<le> r" and "r < 1" and "xs \<noteq> []"
  shows "0 \<le> \<lfloor>r * rat_of_nat (length xs)\<rfloor> \<and> \<lfloor>r * rat_of_nat (length xs)\<rfloor> < int (length xs)"
proof -
  have pos: "0 < rat_of_nat (length xs)"
    using assms(3) by simp
  have "0 \<le> r * rat_of_nat (length xs)"
    using assms(1) by simp
  then have lo: "0 \<le> \<lfloor>r * rat_of_nat (length xs)\<rfloor>"
    by simp
  have "r * rat_of_nat (length xs) < 1 * rat_of_nat (length xs)"
    using assms(2) pos by (intro mult_strict_right_mono)
  then have "r * rat_of_nat (length xs) < of_int (int (length xs))"
    by simp
  then have "\<lfloor>r * rat_of_nat (length xs)\<rfloor> < int (length xs)"
    by (simp only: floor_less_iff)
  with lo show ?thesis by simp
qed

lemma nth_mem_int: "0 \<le> i \<Longrightarrow> i < int (length xs) \<Longrightarrow> xs ! nat i \<in> set xs"
proof -
  assume "0 \<le> i" and "i < int (length xs)"
  then have "nat i < length xs"
    by linarith
  then show ?thesis
    by (rule nth_mem)
qed

lemma pool_ok_splice1: "pool_ok P pool \<Longrightarrow> pool_ok P (splice1 pool i)"
  using set_splice1 [of pool i] by (auto simp: pool_ok_def list_all_iff distinct_splice1)

lemma pool_ok_upt: "pool_ok P [0..<length P]"
  by (simp add: pool_ok_def list_all_iff)

lemma no_errorlog_A: "A = [] \<or> A = [Prompt] \<Longrightarrow> \<not> list_ex is_errorlog A"
  by auto

lemma playOne_no_error:
  assumes "A = [] \<or> A = [Prompt]" and "\<And>w. after w = w\<lparr>out := out w @ A\<rparr>"
    and draws: "\<forall>k. 0 \<le> random e k \<and> random e k < 1"
  shows "pool_ok P (toBeResolved st) \<longrightarrow>
    pool_ok P (toBeResolved (fst (playOne e P after k st w)))
    \<and> (\<exists>tr. out (snd (playOne e P after k st w)) = out w @ tr \<and> \<not> list_ex is_errorlog tr)"
proof (rule playOne_rule [where Q = "\<lambda>A k st w r. pool_ok P (toBeResolved st) \<longrightarrow>
    pool_ok P (toBeResolved (fst r))
    \<and> (\<exists>tr. out (snd r) = out w @ tr \<and> \<not> list_ex is_errorlog tr)", OF assms(1,2)])
  fix A :: "event list" and k :: nat and st :: pstate and w :: world
  assume "A = [] \<or> A = [Prompt]"
  then show "pool_ok P (toBeResolved st) \<longrightarrow>
    pool_ok P (toBeResolved (fst (st, w\<lparr>out := out w @ no_more # game_over (score st) @ A\<rparr>)))
    \<and> (\<exists>tr. out (snd (st, w\<lparr>out := out w @ no_more # game_over (score st) @ A\<rparr>)) = out w @ tr
          \<and> \<not> list_ex is_errorlog tr)"
    by (auto simp: line_defs)
next
  fix A :: "event list" and k :: nat and st :: pstate and w :: world and i :: int
  assume ne: "toBeResolved st \<noteq> []"
    and i: "i = \<lfloor>random e k * rat_of_nat (length (toBeResolved st))\<rfloor>"
    and bad: "\<not> (0 \<le> i \<and> i < int (length (toBeResolved st)) \<and> toBeResolved st ! nat i < length P)"
  let ?st1 = "st\<lparr>toBeResolved := splice1 (toBeResolved st) i\<rparr>"
  let ?w1 = "w\<lparr>out := out w @ [ErrorLog undefined_question, Prompt] @ A\<rparr>"
  show "pool_ok P (toBeResolved st) \<longrightarrow>
    pool_ok P (toBeResolved (fst (?st1, ?w1)))
    \<and> (\<exists>tr. out (snd (?st1, ?w1)) = out w @ tr \<and> \<not> list_ex is_errorlog tr)"
  proof
    assume ok: "pool_ok P (toBeResolved st)"
    have r: "0 \<le> i \<and> i < int (length (toBeResolved st))"
      using draw_in_range [of "random e k" "toBeResolved st"] draws ne i by simp
    then have "toBeResolved st ! nat i \<in> set (toBeResolved st)"
      by (simp add: nth_mem_int)
    then have "toBeResolved st ! nat i < length P"
      using ok by (simp add: pool_ok_def list_all_iff)
    with r bad show "pool_ok P (toBeResolved (fst (?st1, ?w1)))
      \<and> (\<exists>tr. out (snd (?st1, ?w1)) = out w @ tr \<and> \<not> list_ex is_errorlog tr)"
      by simp
  qed
next
  fix A :: "event list" and k :: nat and st :: pstate and w :: world and i :: int and j :: nat
  assume A: "A = [] \<or> A = [Prompt]"
  let ?st1 = "st\<lparr>toBeResolved := splice1 (toBeResolved st) i\<rparr>"
  let ?w1 = "w\<lparr>out := out w @ asks (P ! j) # A\<rparr>"
  show "pool_ok P (toBeResolved st) \<longrightarrow>
    pool_ok P (toBeResolved (fst (?st1, ?w1)))
    \<and> (\<exists>tr. out (snd (?st1, ?w1)) = out w @ tr \<and> \<not> list_ex is_errorlog tr)"
    using A by (auto simp: pool_ok_splice1 line_defs)
next
  fix A :: "event list" and k :: nat and st :: pstate and w :: world and i :: int and j :: nat
    and l :: string and ls :: "string list"
  assume A: "A = [] \<or> A = [Prompt]"
  let ?st1 = "st\<lparr>toBeResolved := splice1 (toBeResolved st) i\<rparr>"
  let ?w1 = "w\<lparr>input := ls, out := out w @ asks (P ! j) # A @ incorrecto # game_over (score st)\<rparr>"
  show "pool_ok P (toBeResolved st) \<longrightarrow>
    pool_ok P (toBeResolved (fst (?st1, ?w1)))
    \<and> (\<exists>tr. out (snd (?st1, ?w1)) = out w @ tr \<and> \<not> list_ex is_errorlog tr)"
    using A by (auto simp: pool_ok_splice1 line_defs)
next
  fix A :: "event list" and k :: nat and st :: pstate and w :: world and i :: int and j :: nat
    and l :: string and ls :: "string list" and r :: "pstate \<times> world"
  let ?st2 = "st\<lparr>toBeResolved := splice1 (toBeResolved st) i, score := score st + 1\<rparr>"
  let ?w2 = "w\<lparr>input := ls, out := out w @ asks (P ! j) # A @ [correcto (score st + 1)]\<rparr>"
  assume A: "A = [] \<or> A = [Prompt]"
    and IH: "pool_ok P (toBeResolved ?st2) \<longrightarrow>
      pool_ok P (toBeResolved (fst r))
      \<and> (\<exists>tr. out (snd r) = out ?w2 @ tr \<and> \<not> list_ex is_errorlog tr)"
  show "pool_ok P (toBeResolved st) \<longrightarrow>
    pool_ok P (toBeResolved (fst r))
    \<and> (\<exists>tr. out (snd r) = out w @ tr \<and> \<not> list_ex is_errorlog tr)"
  proof
    assume ok: "pool_ok P (toBeResolved st)"
    with IH obtain tr where p: "pool_ok P (toBeResolved (fst r))"
      and o: "out (snd r) = out w @ asks (P ! j) # A @ [correcto (score st + 1)] @ tr"
      and n: "\<not> list_ex is_errorlog tr"
      by (auto simp: pool_ok_splice1)
    have "\<not> list_ex is_errorlog (asks (P ! j) # A @ [correcto (score st + 1)] @ tr)"
      using n A by (auto simp: line_defs)
    with p o show "pool_ok P (toBeResolved (fst r))
      \<and> (\<exists>tr. out (snd r) = out w @ tr \<and> \<not> list_ex is_errorlog tr)"
      by blast
  qed
qed

text \<open>
  Claim C10. When every value of \<^verbatim>\<open>Math.random()\<close> is at least 0 and below 1: the pool
  \<^verbatim>\<open>playCmd\<close> starts with satisfies the invariant; from a pool that satisfies it and is
  not empty, the selection of lines 288 to 290 finds a position of the pool and a quiz at
  that position, and leaves a pool that satisfies it; the pool a round ends with
  satisfies it; and the round writes no error line, so the catch of line 306 never runs.
\<close>

theorem pool_stays_in_bounds:
  assumes "\<forall>k. 0 \<le> random e k \<and> random e k < 1"
  shows "pool_ok (db w) [0..<length (db w)]
    \<and> (\<forall>pool k. pool_ok (db w) pool \<and> pool \<noteq> [] \<longrightarrow>
          (\<exists>j q. nth_js pool \<lfloor>random e k * rat_of_nat (length pool)\<rfloor> = Some j
             \<and> nth_js (db w) (int j) = Some q
             \<and> pool_ok (db w) (splice1 pool \<lfloor>random e k * rat_of_nat (length pool)\<rfloor>)))
    \<and> pool_ok (db w) (toBeResolved (fst (playCmd e w)))
    \<and> (\<exists>tr. out (snd (playCmd e w)) = out w @ tr \<and> \<not> list_ex is_errorlog tr)"
proof -
  let ?st0 = "\<lparr>score = 0, toBeResolved = [0..<length (db w)]\<rparr>"
  have A: "[Prompt] = [] \<or> [Prompt] = [Prompt]"
    by simp
  have run: "playCmd e w = playOne e (db w) prompt 0 ?st0 w"
    by (simp add: playCmd_def Let_def)
  have step: "\<exists>j q. nth_js pool \<lfloor>random e k * rat_of_nat (length pool)\<rfloor> = Some j
        \<and> nth_js (db w) (int j) = Some q
        \<and> pool_ok (db w) (splice1 pool \<lfloor>random e k * rat_of_nat (length pool)\<rfloor>)"
    if ok: "pool_ok (db w) pool" and ne: "pool \<noteq> []" for pool k
  proof -
    let ?i = "\<lfloor>random e k * rat_of_nat (length pool)\<rfloor>"
    have r: "0 \<le> ?i \<and> ?i < int (length pool)"
      using draw_in_range [of "random e k" pool] assms ne by simp
    then have "pool ! nat ?i \<in> set pool"
      using nth_mem_int [of ?i pool] by blast
    then have b: "pool ! nat ?i < length (db w)"
      using ok by (simp add: pool_ok_def list_all_iff)
    have 1: "nth_js pool ?i = Some (pool ! nat ?i)"
      using r by (simp add: nth_js_def)
    have 2: "nth_js (db w) (int (pool ! nat ?i)) = Some (db w ! (pool ! nat ?i))"
      using b by (simp add: nth_js_def)
    show ?thesis
      using 1 2 pool_ok_splice1 [OF ok] by blast
  qed
  have fin: "pool_ok (db w) (toBeResolved (fst (playCmd e w)))
      \<and> (\<exists>tr. out (snd (playCmd e w)) = out w @ tr \<and> \<not> list_ex is_errorlog tr)"
    using playOne_no_error [OF A prompt_appends assms, of "db w" ?st0 0 w] pool_ok_upt [of "db w"]
    unfolding run by simp
  show ?thesis
    using pool_ok_upt [of "db w"] step fin by blast
qed

theorem pool_stays_in_bounds_witness:
  "(\<forall>k. 0 \<le> random (example_env\<lparr>random := (\<lambda>k. 1 / 2)\<rparr>) k
        \<and> random (example_env\<lparr>random := (\<lambda>k. 1 / 2)\<rparr>) k < 1)
   \<and> pool_ok (db (example_world\<lparr>input := [''paris'', ''4'']\<rparr>)) [0, 1]
   \<and> nth_js [0, 1 :: nat] \<lfloor>(1 / 2 :: rat) * rat_of_nat (length [0, 1 :: nat])\<rfloor> = Some 1
   \<and> toBeResolved (fst (playCmd (example_env\<lparr>random := (\<lambda>k. 1 / 2)\<rparr>)
         (example_world\<lparr>input := [''paris'', ''4'']\<rparr>))) = []
   \<and> pool_ok (db (example_world\<lparr>input := [''paris'', ''4'']\<rparr>))
         (toBeResolved (fst (playCmd (example_env\<lparr>random := (\<lambda>k. 1 / 2)\<rparr>)
            (example_world\<lparr>input := [''paris'', ''4'']\<rparr>))))
   \<and> (\<exists>tr. out (snd (playCmd (example_env\<lparr>random := (\<lambda>k. 1 / 2)\<rparr>)
                 (example_world\<lparr>input := [''paris'', ''4'']\<rparr>))) =
              out (example_world\<lparr>input := [''paris'', ''4'']\<rparr>) @ tr
           \<and> \<not> list_ex is_errorlog tr)"
proof -
  let ?e = "example_env\<lparr>random := (\<lambda>k. 1 / 2)\<rparr>"
  let ?w = "example_world\<lparr>input := [''paris'', ''4'']\<rparr>"
  have d: "\<forall>k. 0 \<le> random ?e k \<and> random ?e k < 1"
    by simp
  have p: "pool_ok (db ?w) [0, 1]"
    by (simp add: pool_ok_def example_world_def)
  have n: "nth_js [0, 1 :: nat] \<lfloor>(1 / 2 :: rat) * rat_of_nat (length [0, 1 :: nat])\<rfloor> = Some 1"
    by (simp add: nth_js_def)
  have t: "toBeResolved (fst (playCmd ?e ?w)) = []"
    by code_simp
  show ?thesis
    using d p n t pool_stays_in_bounds [OF d, of ?w]
    by blast
qed

subsection \<open>The score of a round\<close>

text \<open>
  Lower-casing maps no character to or from white space, so it commutes with trimming;
  hence a response that \<^verbatim>\<open>playOne\<close> accepts (its trimmed, lower-cased text equals the
  lower-cased stored answer) matches in the sense of the spec.
\<close>

lemma isWhiteSpace_code: "isWhiteSpace c = ((of_char c :: nat) \<in> {9, 10, 11, 12, 13, 32, 160})"
proof -
  have eq: "(c = d) = ((of_char c :: nat) = of_char d)" for d
    by simp
  show ?thesis
    unfolding isWhiteSpace_def list.set insert_iff empty_iff eq
    by simp
qed

lemma isWhiteSpace_lowerChar: "isWhiteSpace (lowerChar c) = isWhiteSpace c"
  by (auto simp: isWhiteSpace_code lowerChar_def Let_def)

lemma dropWhile_toLowerCase:
  "dropWhile isWhiteSpace (toLowerCase s) = toLowerCase (dropWhile isWhiteSpace s)"
  by (induction s) (simp_all add: toLowerCase_def isWhiteSpace_lowerChar)

lemma rev_toLowerCase: "rev (toLowerCase s) = toLowerCase (rev s)"
  by (simp add: toLowerCase_def rev_map)

lemma trim_toLowerCase: "trim (toLowerCase s) = toLowerCase (trim s)"
  by (simp add: trim_def dropWhile_toLowerCase rev_toLowerCase)

lemma match_answers_match:
  assumes "toLowerCase (trim l) = toLowerCase a"
  shows "answers_match l a"
proof -
  have "toLowerCase (trim a) = trim (toLowerCase a)"
    by (simp add: trim_toLowerCase)
  also have "\<dots> = trim (toLowerCase (trim l))"
    using assms by simp
  also have "\<dots> = toLowerCase (trim l)"
    by (simp add: trim_toLowerCase trim_trim)
  finally show ?thesis
    by (simp add: answers_match_def)
qed

lemma not_correcto_A: "A = [] \<or> A = [Prompt] \<Longrightarrow> filter is_correcto A = [] \<and> incorrecto \<notin> set A"
  by (auto simp: incorrecto_def)

lemma playOne_score:
  assumes "A = [] \<or> A = [Prompt]" and "\<And>w. after w = w\<lparr>out := out w @ A\<rparr>"
  shows "\<exists>tr. out (snd (playOne e P after k st w)) = out w @ tr
    \<and> score st \<le> score (fst (playOne e P after k st w))
    \<and> filter is_correcto tr = map correcto [score st + 1..<score (fst (playOne e P after k st w)) + 1]
    \<and> score (fst (playOne e P after k st w)) \<le> score st + length (filter (matches_some P) (input w))
    \<and> (incorrecto \<in> set tr \<longrightarrow>
         (\<exists>pre. tr = pre @ incorrecto # game_over (score (fst (playOne e P after k st w)))))"
proof (rule playOne_rule [where Q = "\<lambda>A k st w r. \<exists>tr. out (snd r) = out w @ tr
    \<and> score st \<le> score (fst r)
    \<and> filter is_correcto tr = map correcto [score st + 1..<score (fst r) + 1]
    \<and> score (fst r) \<le> score st + length (filter (matches_some P) (input w))
    \<and> (incorrecto \<in> set tr \<longrightarrow> (\<exists>pre. tr = pre @ incorrecto # game_over (score (fst r))))",
    OF assms])
  fix A :: "event list" and k :: nat and st :: pstate and w :: world
  assume A: "A = [] \<or> A = [Prompt]"
  let ?r = "(st, w\<lparr>out := out w @ no_more # game_over (score st) @ A\<rparr>)"
  show "\<exists>tr. out (snd ?r) = out w @ tr
    \<and> score st \<le> score (fst ?r)
    \<and> filter is_correcto tr = map correcto [score st + 1..<score (fst ?r) + 1]
    \<and> score (fst ?r) \<le> score st + length (filter (matches_some P) (input w))
    \<and> (incorrecto \<in> set tr \<longrightarrow> (\<exists>pre. tr = pre @ incorrecto # game_over (score (fst ?r))))"
    using A by (intro exI [of _ "no_more # game_over (score st) @ A"]) (auto simp: line_defs)
next
  fix A :: "event list" and k :: nat and st :: pstate and w :: world and i :: int
  assume A: "A = [] \<or> A = [Prompt]"
  let ?r = "(st\<lparr>toBeResolved := splice1 (toBeResolved st) i\<rparr>,
             w\<lparr>out := out w @ [ErrorLog undefined_question, Prompt] @ A\<rparr>)"
  show "\<exists>tr. out (snd ?r) = out w @ tr
    \<and> score st \<le> score (fst ?r)
    \<and> filter is_correcto tr = map correcto [score st + 1..<score (fst ?r) + 1]
    \<and> score (fst ?r) \<le> score st + length (filter (matches_some P) (input w))
    \<and> (incorrecto \<in> set tr \<longrightarrow> (\<exists>pre. tr = pre @ incorrecto # game_over (score (fst ?r))))"
    using A by (intro exI [of _ "[ErrorLog undefined_question, Prompt] @ A"]) (auto simp: line_defs)
next
  fix A :: "event list" and k :: nat and st :: pstate and w :: world and i :: int and j :: nat
  assume A: "A = [] \<or> A = [Prompt]"
  let ?r = "(st\<lparr>toBeResolved := splice1 (toBeResolved st) i\<rparr>, w\<lparr>out := out w @ asks (P ! j) # A\<rparr>)"
  show "\<exists>tr. out (snd ?r) = out w @ tr
    \<and> score st \<le> score (fst ?r)
    \<and> filter is_correcto tr = map correcto [score st + 1..<score (fst ?r) + 1]
    \<and> score (fst ?r) \<le> score st + length (filter (matches_some P) (input w))
    \<and> (incorrecto \<in> set tr \<longrightarrow> (\<exists>pre. tr = pre @ incorrecto # game_over (score (fst ?r))))"
    using A by (intro exI [of _ "asks (P ! j) # A"]) (auto simp: line_defs)
next
  fix A :: "event list" and k :: nat and st :: pstate and w :: world and i :: int and j :: nat
    and l :: string and ls :: "string list"
  assume A: "A = [] \<or> A = [Prompt]"
  let ?r = "(st\<lparr>toBeResolved := splice1 (toBeResolved st) i\<rparr>,
             w\<lparr>input := ls, out := out w @ asks (P ! j) # A @ incorrecto # game_over (score st)\<rparr>)"
  let ?tr = "asks (P ! j) # A @ incorrecto # game_over (score st)"
  have sc: "score (fst ?r) = score st"
    by simp
  have 1: "out (snd ?r) = out w @ ?tr"
    by simp
  have 2: "score st \<le> score (fst ?r)"
    by simp
  have "filter is_correcto ?tr = []"
    using A by (auto simp: line_defs)
  then have 3: "filter is_correcto ?tr = map correcto [score st + 1..<score (fst ?r) + 1]"
    unfolding sc by simp
  have 4: "score (fst ?r) \<le> score st + length (filter (matches_some P) (input w))"
    unfolding sc by simp
  have "?tr = (asks (P ! j) # A) @ incorrecto # game_over (score st)"
    by simp
  then have "\<exists>pre. ?tr = pre @ incorrecto # game_over (score st)"
    by (rule exI)
  then have 5: "incorrecto \<in> set ?tr \<longrightarrow>
      (\<exists>pre. ?tr = pre @ incorrecto # game_over (score (fst ?r)))"
    unfolding sc by (rule impI)
  show "\<exists>tr. out (snd ?r) = out w @ tr
    \<and> score st \<le> score (fst ?r)
    \<and> filter is_correcto tr = map correcto [score st + 1..<score (fst ?r) + 1]
    \<and> score (fst ?r) \<le> score st + length (filter (matches_some P) (input w))
    \<and> (incorrecto \<in> set tr \<longrightarrow> (\<exists>pre. tr = pre @ incorrecto # game_over (score (fst ?r))))"
    by (intro exI [of _ ?tr] conjI) (fact 1, fact 2, fact 3, fact 4, fact 5)
next
  fix A :: "event list" and k :: nat and st :: pstate and w :: world and i :: int and j :: nat
    and l :: string and ls :: "string list" and r :: "pstate \<times> world"
  let ?st2 = "st\<lparr>toBeResolved := splice1 (toBeResolved st) i, score := score st + 1\<rparr>"
  let ?w2 = "w\<lparr>input := ls, out := out w @ asks (P ! j) # A @ [correcto (score st + 1)]\<rparr>"
  assume A: "A = [] \<or> A = [Prompt]" and j: "j < length P" and inp: "input w = l # ls"
    and match: "toLowerCase (trim l) = toLowerCase (answer (P ! j))"
    and IH: "\<exists>tr. out (snd r) = out ?w2 @ tr
      \<and> score ?st2 \<le> score (fst r)
      \<and> filter is_correcto tr = map correcto [score ?st2 + 1..<score (fst r) + 1]
      \<and> score (fst r) \<le> score ?st2 + length (filter (matches_some P) (input ?w2))
      \<and> (incorrecto \<in> set tr \<longrightarrow> (\<exists>pre. tr = pre @ incorrecto # game_over (score (fst r))))"
  from IH obtain tr where o: "out (snd r) = out w @ asks (P ! j) # A @ [correcto (score st + 1)] @ tr"
    and s: "score st + 1 \<le> score (fst r)"
    and c: "filter is_correcto tr = map correcto [score st + 2..<score (fst r) + 1]"
    and b: "score (fst r) \<le> score st + 1 + length (filter (matches_some P) ls)"
    and t: "incorrecto \<in> set tr \<longrightarrow> (\<exists>pre. tr = pre @ incorrecto # game_over (score (fst r)))"
    by auto
  let ?tr = "asks (P ! j) # A @ [correcto (score st + 1)] @ tr"
  have m: "matches_some P l"
    using match_answers_match [OF match] j by (auto simp: matches_some_def list_ex_iff)
  have 1: "out (snd r) = out w @ ?tr"
    using o by simp
  have 2: "score st \<le> score (fst r)"
    using s by simp
  have "[score st + 1..<score (fst r) + 1] = (score st + 1) # [score st + 2..<score (fst r) + 1]"
    using s by (simp add: upt_conv_Cons)
  then have 3: "filter is_correcto ?tr = map correcto [score st + 1..<score (fst r) + 1]"
    using A c by (auto simp: line_defs)
  have 4: "score (fst r) \<le> score st + length (filter (matches_some P) (input w))"
    using b m inp by simp
  have 5: "incorrecto \<in> set ?tr \<longrightarrow> (\<exists>pre. ?tr = pre @ incorrecto # game_over (score (fst r)))"
  proof
    assume "incorrecto \<in> set ?tr"
    then have "incorrecto \<in> set tr"
      using A by (auto simp: line_defs)
    then obtain pre where "tr = pre @ incorrecto # game_over (score (fst r))"
      using t by blast
    then have "?tr = (asks (P ! j) # A @ [correcto (score st + 1)] @ pre)
        @ incorrecto # game_over (score (fst r))"
      by simp
    then show "\<exists>pre. ?tr = pre @ incorrecto # game_over (score (fst r))"
      by blast
  qed
  show "\<exists>tr. out (snd r) = out w @ tr
    \<and> score st \<le> score (fst r)
    \<and> filter is_correcto tr = map correcto [score st + 1..<score (fst r) + 1]
    \<and> score (fst r) \<le> score st + length (filter (matches_some P) (input w))
    \<and> (incorrecto \<in> set tr \<longrightarrow> (\<exists>pre. tr = pre @ incorrecto # game_over (score (fst r))))"
    using 1 2 3 4 5 by blast
qed

text \<open>
  Claim C4. In a round the running-score lines announce 1, 2, ... up to the final score
  (the score starts at 0 and goes up by one each time); the final score is at most the
  number of typed lines that match the answer of some loaded quiz; and when the line
  for a wrong answer is written, the round ends right there with the final score and
  its banner. Step by step: a response that \<^verbatim>\<open>playOne\<close> accepts matches the stored answer
  and the round goes on with the score one higher and the running-score line; a
  response that does not match ends the round with the score as it was, the line for a
  wrong answer, the final score, its banner and the prompt.
\<close>

theorem play_score:
  "(\<exists>tr. out (snd (playCmd e w)) = out w @ tr
      \<and> filter is_correcto tr = map correcto [1..<score (fst (playCmd e w)) + 1]
      \<and> score (fst (playCmd e w)) \<le> length (filter (matches_some (db w)) (input w))
      \<and> (incorrecto \<in> set tr \<longrightarrow>
           (\<exists>pre. tr = pre @ incorrecto # game_over (score (fst (playCmd e w))))))
   \<and> (toBeResolved st \<noteq> []
        \<and> (case nth_js (toBeResolved st) \<lfloor>random e k * rat_of_nat (length (toBeResolved st))\<rfloor> of
             None \<Rightarrow> None | Some j \<Rightarrow> nth_js P (int j)) = Some q
        \<and> input (after (ask (question q @ ''? '') v)) = l # ls
        \<and> toLowerCase (trim l) = toLowerCase (answer q)
      \<longrightarrow> answers_match l (answer q)
        \<and> playOne e P after k st v =
            playOne e P (\<lambda>w. w) (Suc k)
              (st\<lparr>toBeResolved :=
                    splice1 (toBeResolved st) \<lfloor>random e k * rat_of_nat (length (toBeResolved st))\<rfloor>,
                  score := score st + 1\<rparr>)
              ((after (ask (question q @ ''? '') v))
                 \<lparr>input := ls,
                  out := out (after (ask (question q @ ''? '') v)) @ [correcto (score st + 1)]\<rparr>))
   \<and> (toBeResolved st \<noteq> []
        \<and> (case nth_js (toBeResolved st) \<lfloor>random e k * rat_of_nat (length (toBeResolved st))\<rfloor> of
             None \<Rightarrow> None | Some j \<Rightarrow> nth_js P (int j)) = Some q
        \<and> input (after (ask (question q @ ''? '') v)) = l # ls
        \<and> \<not> answers_match l (answer q)
      \<longrightarrow> playOne e P after k st v =
            (st\<lparr>toBeResolved :=
                  splice1 (toBeResolved st) \<lfloor>random e k * rat_of_nat (length (toBeResolved st))\<rfloor>\<rparr>,
             (after (ask (question q @ ''? '') v))
               \<lparr>input := ls,
                out := out (after (ask (question q @ ''? '') v))
                         @ incorrecto # game_over (score st)\<rparr>))"
proof -
  let ?st0 = "\<lparr>score = 0, toBeResolved = [0..<length (db w)]\<rparr>"
  let ?i = "\<lfloor>random e k * rat_of_nat (length (toBeResolved st))\<rfloor>"
  let ?w1 = "after (ask (question q @ ''? '') v)"
  have A: "[Prompt] = [] \<or> [Prompt] = [Prompt]"
    by simp
  have run: "playCmd e w = playOne e (db w) prompt 0 ?st0 w"
    by (simp add: playCmd_def Let_def)
  have round: "\<exists>tr. out (snd (playCmd e w)) = out w @ tr
      \<and> filter is_correcto tr = map correcto [1..<score (fst (playCmd e w)) + 1]
      \<and> score (fst (playCmd e w)) \<le> length (filter (matches_some (db w)) (input w))
      \<and> (incorrecto \<in> set tr \<longrightarrow>
           (\<exists>pre. tr = pre @ incorrecto # game_over (score (fst (playCmd e w)))))"
    using playOne_score [OF A prompt_appends, of e "db w" 0 ?st0 w] unfolding run by simp
  have right: "answers_match l (answer q)
      \<and> playOne e P after k st v =
          playOne e P (\<lambda>w. w) (Suc k) (st\<lparr>toBeResolved := splice1 (toBeResolved st) ?i,
            score := score st + 1\<rparr>)
            (?w1\<lparr>input := ls, out := out ?w1 @ [correcto (score st + 1)]\<rparr>)"
    if ne: "toBeResolved st \<noteq> []"
      and picked: "(case nth_js (toBeResolved st) ?i of None \<Rightarrow> None
                    | Some j \<Rightarrow> nth_js P (int j)) = Some q"
      and inp: "input ?w1 = l # ls" and m: "toLowerCase (trim l) = toLowerCase (answer q)"
  proof -
    have "playOne e P after k st v =
          playOne e P (\<lambda>w. w) (Suc k) (st\<lparr>toBeResolved := splice1 (toBeResolved st) ?i,
            score := score st + 1\<rparr>)
            (?w1\<lparr>input := ls, out := out ?w1 @ [correcto (score st + 1)]\<rparr>)"
      using ne picked inp m
      by (subst playOne.simps)
        (simp add: Let_def receive_def trim_trim log'_def emit_def correcto_def)
    then show ?thesis
      using match_answers_match [OF m] by simp
  qed
  have wrong: "playOne e P after k st v =
        (st\<lparr>toBeResolved := splice1 (toBeResolved st) ?i\<rparr>,
         ?w1\<lparr>input := ls, out := out ?w1 @ incorrecto # game_over (score st)\<rparr>)"
    if ne: "toBeResolved st \<noteq> []"
      and picked: "(case nth_js (toBeResolved st) ?i of None \<Rightarrow> None
                    | Some j \<Rightarrow> nth_js P (int j)) = Some q"
      and inp: "input ?w1 = l # ls" and m: "\<not> answers_match l (answer q)"
  proof -
    have "toLowerCase (trim l) \<noteq> toLowerCase (answer q)"
      using m match_answers_match by blast
    then show ?thesis
      using ne picked inp
      by (subst playOne.simps)
        (simp add: Let_def receive_def trim_trim log'_def biglog_def prompt_def emit_def
          incorrecto_def game_over_def)
  qed
  show ?thesis
    using round right wrong by blast
qed

theorem play_score_witness:
  "out (snd (playCmd example_env (example_world\<lparr>input := ['' 4 '', ''Rome'']\<rparr>))) =
     [asks \<lparr>quiz_id = 1, question = ''2+2?'', answer = ''4''\<rparr>, Prompt, correcto 1,
      asks \<lparr>quiz_id = 2, question = ''capital of France?'', answer = ''Paris''\<rparr>,
      incorrecto, Log [T '' Fin del juego. Aciertos: '', T ''1''], BigLog ''1'' ''magenta'', Prompt]
   \<and> score (fst (playCmd example_env (example_world\<lparr>input := ['' 4 '', ''Rome'']\<rparr>))) = 1
   \<and> length (filter (matches_some (db (example_world\<lparr>input := ['' 4 '', ''Rome'']\<rparr>)))
         (input (example_world\<lparr>input := ['' 4 '', ''Rome'']\<rparr>))) = 1
   \<and> (\<exists>tr. out (snd (playCmd example_env (example_world\<lparr>input := ['' 4 '', ''Rome'']\<rparr>))) =
          out (example_world\<lparr>input := ['' 4 '', ''Rome'']\<rparr>) @ tr
        \<and> filter is_correcto tr = map correcto [1..<1 + 1]
        \<and> incorrecto \<in> set tr
        \<and> (\<exists>pre. tr = pre @ incorrecto # game_over 1))
   \<and> toLowerCase (trim '' 4 '') = toLowerCase ''4''
   \<and> answers_match '' 4 '' ''4''
   \<and> \<not> answers_match ''Rome'' ''Paris''
   \<and> playOne example_env (db example_world) (\<lambda>w. w) 1 \<lparr>score = 1, toBeResolved = [1]\<rparr>
         (example_world\<lparr>input := [''Rome'']\<rparr>) =
       (\<lparr>score = 1, toBeResolved = []\<rparr>,
        example_world\<lparr>input := [],
          out := [asks \<lparr>quiz_id = 2, question = ''capital of France?'', answer = ''Paris''\<rparr>,
                  incorrecto, Log [T '' Fin del juego. Aciertos: '', T ''1''],
                  BigLog ''1'' ''magenta'', Prompt]\<rparr>)"
proof -
  let ?e = example_env
  let ?w = "example_world\<lparr>input := ['' 4 '', ''Rome'']\<rparr>"
  let ?q1 = "\<lparr>quiz_id = 1, question = ''2+2?'', answer = ''4''\<rparr>"
  let ?q2 = "\<lparr>quiz_id = 2, question = ''capital of France?'', answer = ''Paris''\<rparr>"
  let ?tr = "[asks ?q1, Prompt, correcto 1, asks ?q2, incorrecto,
      Log [T '' Fin del juego. Aciertos: '', T ''1''], BigLog ''1'' ''magenta'', Prompt]"
  have o: "out (snd (playCmd ?e ?w)) = ?tr"
    by code_simp
  have s: "score (fst (playCmd ?e ?w)) = 1"
    by code_simp
  have c: "length (filter (matches_some (db ?w)) (input ?w)) = 1"
    by code_simp
  have ow: "out ?w = []"
    by (simp add: example_world_def)
  have i: "incorrecto \<in> set ?tr"
    by (simp add: line_defs)
  from play_score [where e = ?e and w = ?w] obtain tr where
    t1: "out (snd (playCmd ?e ?w)) = out ?w @ tr"
    and t2: "filter is_correcto tr = map correcto [1..<score (fst (playCmd ?e ?w)) + 1]"
    and t3: "incorrecto \<in> set tr \<longrightarrow>
         (\<exists>pre. tr = pre @ incorrecto # game_over (score (fst (playCmd ?e ?w))))"
    by blast
  have tr: "tr = ?tr"
    using t1 o ow by simp
  have round: "\<exists>tr. out (snd (playCmd ?e ?w)) = out ?w @ tr
        \<and> filter is_correcto tr = map correcto [1..<1 + 1]
        \<and> incorrecto \<in> set tr
        \<and> (\<exists>pre. tr = pre @ incorrecto # game_over 1)"
    using t1 t2 t3 i unfolding s tr by blast
  let ?st = "\<lparr>score = 0, toBeResolved = [0, 1]\<rparr>"
  have a1: "toBeResolved ?st \<noteq> []"
    by simp
  have a2: "(case nth_js (toBeResolved ?st) \<lfloor>random ?e 0 * rat_of_nat (length (toBeResolved ?st))\<rfloor> of
             None \<Rightarrow> None | Some j \<Rightarrow> nth_js (db example_world) (int j)) = Some ?q1"
    by code_simp
  have a3: "input (prompt (ask (question ?q1 @ ''? '') ?w)) = '' 4 '' # [''Rome'']"
    by (simp add: channel_defs)
  have a4: "toLowerCase (trim '' 4 '') = toLowerCase (answer ?q1)"
    by code_simp
  have "answers_match '' 4 '' (answer ?q1)"
    using play_score [where e = ?e and w = ?w and st = ?st and k = 0 and P = "db example_world"
        and q = ?q1 and after = prompt and v = ?w and l = "'' 4 ''" and ls = "[''Rome'']"]
      a1 a2 a3 a4 by blast
  then have m: "answers_match '' 4 '' ''4''"
    by simp
  let ?st' = "\<lparr>score = 1, toBeResolved = [1]\<rparr>"
  let ?v = "example_world\<lparr>input := [''Rome'']\<rparr>"
  have b1: "toBeResolved ?st' \<noteq> []"
    by simp
  have b2: "(case nth_js (toBeResolved ?st') \<lfloor>random ?e 1 * rat_of_nat (length (toBeResolved ?st'))\<rfloor> of
             None \<Rightarrow> None | Some j \<Rightarrow> nth_js (db example_world) (int j)) = Some ?q2"
    by code_simp
  have b3: "input ((\<lambda>w. w) (ask (question ?q2 @ ''? '') ?v)) = ''Rome'' # []"
    by (simp add: channel_defs)
  have b4: "\<not> answers_match ''Rome'' (answer ?q2)"
    by code_simp
  have b5: "splice1 [Suc 0] \<lfloor>random example_env (Suc 0)\<rfloor> = []"
    by code_simp
  have b6: "num 1 = ''1''"
    by code_simp
  have "playOne ?e (db example_world) (\<lambda>w. w) 1 ?st' ?v =
      (?st'\<lparr>toBeResolved :=
          splice1 (toBeResolved ?st') \<lfloor>random ?e 1 * rat_of_nat (length (toBeResolved ?st'))\<rfloor>\<rparr>,
       (ask (question ?q2 @ ''? '') ?v)
         \<lparr>input := [],
          out := out (ask (question ?q2 @ ''? '') ?v) @ incorrecto # game_over (score ?st')\<rparr>)"
    using play_score [where e = ?e and w = ?w and st = ?st' and k = 1 and P = "db example_world"
        and q = ?q2 and after = "\<lambda>w. w" and v = ?v and l = "''Rome''" and ls = "[]"]
      b1 b2 b3 b4
    by blast
  then have w: "playOne ?e (db example_world) (\<lambda>w. w) 1 ?st' ?v =
       (\<lparr>score = 1, toBeResolved = []\<rparr>,
        example_world\<lparr>input := [],
          out := [asks ?q2, incorrecto, Log [T '' Fin del juego. Aciertos: '', T ''1''],
                  BigLog ''1'' ''magenta'', Prompt]\<rparr>)"
    by (simp add: b5 b6 channel_defs line_defs example_world_def)
  have a4': "toLowerCase (trim '' 4 '') = toLowerCase ''4''"
    using a4 by simp
  have b4': "\<not> answers_match ''Rome'' ''Paris''"
    using b4 by simp
  show ?thesis
    using o s c round a4' m b4' w by blast
qed

end
